theory Spec2Isabelle
  imports Main "HOL-Library.AList"
begin

section \<open>Shared vocabulary\<close>

text \<open>
  Connection identifiers, room identifiers and the negotiation payloads are strings in the
  source (\<^verbatim>\<open>client.id\<close>, \<^verbatim>\<open>roomId\<close>) or opaque browser objects
  (\<^verbatim>\<open>RTCSessionDescriptionInit\<close>, \<^verbatim>\<open>RTCIceCandidateInit\<close>) that neither side
  inspects; the payloads are modelled as strings as well.
\<close>

type_synonym conn_id = string
type_synonym room_id = string
type_synonym session_description = string
type_synonym ice_candidate = string

subsection \<open>JavaScript \<^verbatim>\<open>Set\<close> and \<^verbatim>\<open>Map\<close>\<close>

text \<open>
  A JavaScript \<^verbatim>\<open>Set\<close> iterates in insertion order and holds no element twice: a list
  to which \<^verbatim>\<open>add\<close> appends an absent element. A \<^verbatim>\<open>Map\<close> iterates its entries
  in insertion order as well: an association list, where \<^verbatim>\<open>set\<close> replaces the value of
  a present key in place and appends an absent one (this is \<^const>\<open>AList.update\<close>), and
  \<^verbatim>\<open>delete\<close> drops the entry (\<^const>\<open>AList.delete\<close>).
\<close>

definition js_set_add :: "'a list \<Rightarrow> 'a \<Rightarrow> 'a list" where
  "js_set_add xs x = (if x \<in> set xs then xs else xs @ [x])"

definition js_set_delete :: "'a list \<Rightarrow> 'a \<Rightarrow> 'a list" where
  "js_set_delete xs x = removeAll x xs"

definition js_map_has :: "('k \<times> 'v) list \<Rightarrow> 'k \<Rightarrow> bool" where
  "js_map_has m k = (map_of m k \<noteq> None)"

definition js_map_set :: "('k \<times> 'v) list \<Rightarrow> 'k \<Rightarrow> 'v \<Rightarrow> ('k \<times> 'v) list" where
  "js_map_set m k v = AList.update k v m"

definition js_map_delete :: "('k \<times> 'v) list \<Rightarrow> 'k \<Rightarrow> ('k \<times> 'v) list" where
  "js_map_delete m k = AList.delete k m"

section \<open>The signaling gateway (server)\<close>

text \<open>
  \<^verbatim>\<open>interface Room { users: Set<string> }\<close> and the gateway's private field
  \<^verbatim>\<open>rooms: Map<string, Room>\<close>.
\<close>

record room =
  users :: "conn_id list"

text \<open>The messages the gateway emits, with their payloads.\<close>

datatype server_msg =
    UserLeft conn_id
  | UserJoined conn_id
  | RoomUsers "conn_id list"
  | OfferFrom session_description conn_id
  | AnswerFrom session_description conn_id
  | IceCandidateFrom ice_candidate conn_id

text \<open>
  The gateway emits in two ways: \<^verbatim>\<open>this.server.to(x).emit(ev, data)\<close>, addressed to the
  transport channel named \<open>x\<close>, and \<^verbatim>\<open>client.emit(ev, data)\<close>, written to the socket of
  the client whose message is being handled.
\<close>

datatype emission =
    ToChannel string server_msg
  | ToSocket conn_id server_msg

text \<open>
  The transport (socket.io) is a library, not code of the repository. The part of its state
  the gateway touches is kept beside the room map: the sockets that are connected, and the
  channel memberships made by \<^verbatim>\<open>client.join(roomId)\<close>. By the library's documented
  behaviour every connected socket is a member of the channel named by its own identifier,
  an emission to a channel reaches every connected member of it, and a closing socket
  leaves every channel before the gateway's disconnect handler runs.
\<close>

record gateway =
  rooms :: "(room_id \<times> room) list"
  sockets :: "conn_id list"
  joined :: "(string \<times> conn_id) list"

definition init_gateway :: gateway where
  "init_gateway = \<lparr>rooms = [], sockets = [], joined = []\<rparr>"

definition sio_connect :: "gateway \<Rightarrow> conn_id \<Rightarrow> gateway" where
  "sio_connect g c = g\<lparr>sockets := js_set_add (sockets g) c\<rparr>"

definition sio_join :: "gateway \<Rightarrow> conn_id \<Rightarrow> string \<Rightarrow> gateway" where
  "sio_join g c ch = g\<lparr>joined := js_set_add (joined g) (ch, c)\<rparr>"

definition sio_close :: "gateway \<Rightarrow> conn_id \<Rightarrow> gateway" where
  "sio_close g c =
     g\<lparr>sockets := js_set_delete (sockets g) c,
       joined := filter (\<lambda>(ch, s). s \<noteq> c) (joined g)\<rparr>"

definition channel_members :: "gateway \<Rightarrow> string \<Rightarrow> conn_id list" where
  "channel_members g ch = filter (\<lambda>s. s = ch \<or> (ch, s) \<in> set (joined g)) (sockets g)"

fun recipients :: "gateway \<Rightarrow> emission \<Rightarrow> conn_id list" where
  "recipients g (ToChannel ch m) = channel_members g ch"
| "recipients g (ToSocket c m) = [c]"

subsection \<open>\<^verbatim>\<open>handleConnection\<close> and \<^verbatim>\<open>handleDisconnect\<close>\<close>

definition handleConnection :: "gateway \<Rightarrow> conn_id \<Rightarrow> gateway \<times> emission list" where
  "handleConnection g client = (g, [])"

text \<open>
  The body of \<^verbatim>\<open>this.rooms.forEach((room, roomId) => ...)\<close>: every entry of the map is
  visited once, in insertion order; an entry deleted while it is visited does not disturb
  the visit of the later ones. A room that holds the client loses it, each remaining user
  is sent \<^verbatim>\<open>user-left\<close>, and the room is deleted when its size is zero.
\<close>

fun leave_rooms ::
  "conn_id \<Rightarrow> (room_id \<times> room) list \<Rightarrow> (room_id \<times> room) list \<times> emission list" where
  "leave_rooms client [] = ([], [])"
| "leave_rooms client ((roomId, rm) # rest) =
     (let (rest', later) = leave_rooms client rest in
      if client \<in> set (users rm) then
        (let rm' = rm\<lparr>users := js_set_delete (users rm) client\<rparr>;
             notes = map (\<lambda>userId. ToChannel userId (UserLeft client)) (users rm')
         in (if length (users rm') = 0 then rest' else (roomId, rm') # rest', notes @ later))
      else ((roomId, rm) # rest', later))"

definition handleDisconnect :: "gateway \<Rightarrow> conn_id \<Rightarrow> gateway \<times> emission list" where
  "handleDisconnect g client =
     (let (rooms', out) = leave_rooms client (rooms g) in (g\<lparr>rooms := rooms'\<rparr>, out))"

subsection \<open>\<^verbatim>\<open>handleJoinRoom\<close>\<close>

definition handleJoinRoom :: "gateway \<Rightarrow> conn_id \<Rightarrow> room_id \<Rightarrow> gateway \<times> emission list" where
  "handleJoinRoom g client roomId =
     (let rooms1 = (if \<not> js_map_has (rooms g) roomId
                    then js_map_set (rooms g) roomId \<lparr>users = []\<rparr> else rooms g)
      in case map_of rooms1 roomId of
           None \<Rightarrow> (g\<lparr>rooms := rooms1\<rparr>, [])
         | Some rm \<Rightarrow>
             (let notes = map (\<lambda>userId. ToChannel userId (UserJoined client)) (users rm);
                  rm' = rm\<lparr>users := js_set_add (users rm) client\<rparr>;
                  rooms2 = js_map_set rooms1 roomId rm';
                  g' = sio_join (g\<lparr>rooms := rooms2\<rparr>) client roomId;
                  existingUsers = filter (\<lambda>id. id \<noteq> client) (users rm')
              in (g', notes @ [ToSocket client (RoomUsers existingUsers)])))"

subsection \<open>The relay handlers\<close>

record offer_data =
  offer :: session_description
  offer_to :: string

record answer_data =
  answer :: session_description
  answer_to :: string

record candidate_data =
  candidate :: ice_candidate
  candidate_to :: string

definition handleOffer :: "gateway \<Rightarrow> conn_id \<Rightarrow> offer_data \<Rightarrow> gateway \<times> emission list" where
  "handleOffer g client data = (g, [ToChannel (offer_to data) (OfferFrom (offer data) client)])"

definition handleAnswer :: "gateway \<Rightarrow> conn_id \<Rightarrow> answer_data \<Rightarrow> gateway \<times> emission list" where
  "handleAnswer g client data = (g, [ToChannel (answer_to data) (AnswerFrom (answer data) client)])"

definition handleIceCandidate ::
  "gateway \<Rightarrow> conn_id \<Rightarrow> candidate_data \<Rightarrow> gateway \<times> emission list" where
  "handleIceCandidate g client data =
     (g, [ToChannel (candidate_to data) (IceCandidateFrom (candidate data) client)])"

subsection \<open>Sequences of join and disconnect events\<close>

datatype room_event = Join conn_id room_id | Disconnect conn_id

fun room_step :: "gateway \<Rightarrow> room_event \<Rightarrow> gateway" where
  "room_step g (Join c r) = fst (handleJoinRoom g c r)"
| "room_step g (Disconnect c) = fst (handleDisconnect (sio_close g c) c)"

definition run_events :: "gateway \<Rightarrow> room_event list \<Rightarrow> gateway" where
  "run_events g es = foldl room_step g es"

definition members :: "gateway \<Rightarrow> room_id \<Rightarrow> conn_id list" where
  "members g r = (case map_of (rooms g) r of None \<Rightarrow> [] | Some rm \<Rightarrow> users rm)"

text \<open>
  The specification's side of the membership claim, read from its words: scanning the
  events from the most recent one backwards, a connection is a member of the room when a
  join of it for that room is met before any disconnect of it.
\<close>

fun joined_not_left :: "conn_id \<Rightarrow> room_id \<Rightarrow> room_event list \<Rightarrow> bool" where
  "joined_not_left c r [] = False"
| "joined_not_left c r (Join c' r' # earlier) = ((c' = c \<and> r' = r) \<or> joined_not_left c r earlier)"
| "joined_not_left c r (Disconnect c' # earlier) = (c' \<noteq> c \<and> joined_not_left c r earlier)"

text \<open>
  What a list of emissions puts on the wire: each emission reaches its recipients, in the
  order of emission.
\<close>

fun msg_of :: "emission \<Rightarrow> server_msg" where
  "msg_of (ToChannel ch m) = m"
| "msg_of (ToSocket c m) = m"

definition deliver :: "gateway \<Rightarrow> emission list \<Rightarrow> (conn_id \<times> server_msg) list" where
  "deliver g out = concat (map (\<lambda>e. map (\<lambda>s. (s, msg_of e)) (recipients g e)) out)"

text \<open>
  What the relay claim says of one handler's result \<open>res\<close> for a target \<open>t\<close> and a message
  \<open>m\<close>: the gateway is unchanged, one emission addressed to \<open>t\<close> was made, nothing but \<open>m\<close>
  is delivered, a connected target receives it, and a target that is neither a connected
  socket nor the name of a joined channel makes the transport deliver nothing at all.
\<close>

definition forwarded ::
  "gateway \<Rightarrow> string \<Rightarrow> server_msg \<Rightarrow> gateway \<times> emission list \<Rightarrow> bool" where
  "forwarded g t m res =
     (fst res = g \<and> snd res = [ToChannel t m] \<and>
      snd ` set (deliver g (snd res)) \<subseteq> {m} \<and>
      (t \<in> set (sockets g) \<longrightarrow> (t, m) \<in> set (deliver g (snd res))) \<and>
      (t \<notin> set (sockets g) \<and> t \<notin> fst ` set (joined g) \<longrightarrow> deliver g (snd res) = []))"

text \<open>
  The room map's representation invariant: no room identifier twice, no user twice in a
  room, and no room without users.
\<close>

definition rooms_ok :: "(room_id \<times> room) list \<Rightarrow> bool" where
  "rooms_ok rs =
     (distinct (map fst rs) \<and> list_all (\<lambda>(r, rm). distinct (users rm) \<and> users rm \<noteq> []) rs)"

subsection \<open>Connections, joins and disconnects with the transport\<close>

text \<open>
  The events of the gateway with the transport's part in them: a connection makes the
  socket known to the transport before \<^verbatim>\<open>handleConnection\<close> runs, a join message comes
  from a connected socket only, and a socket that closes has left the transport before
  \<^verbatim>\<open>handleDisconnect\<close> runs.
\<close>

datatype gateway_event = Connects conn_id | Joins conn_id room_id | Disconnects conn_id

fun gateway_step :: "gateway \<Rightarrow> gateway_event \<Rightarrow> gateway" where
  "gateway_step g (Connects c) = fst (handleConnection (sio_connect g c) c)"
| "gateway_step g (Joins c r) =
     (if c \<in> set (sockets g) then fst (handleJoinRoom g c r) else g)"
| "gateway_step g (Disconnects c) =
     (if c \<in> set (sockets g) then fst (handleDisconnect (sio_close g c) c) else g)"

definition live_run :: "gateway_event list \<Rightarrow> gateway" where
  "live_run es = foldl gateway_step init_gateway es"

text \<open>
  No socket is in a channel that bears the identifier of a connected socket: no room in
  use is named like a connection.
\<close>

definition no_alias :: "gateway \<Rightarrow> bool" where
  "no_alias g = list_all (\<lambda>(ch, s). ch \<notin> set (sockets g)) (joined g)"

text \<open>How many times the connection \<open>v\<close> receives the message \<open>m\<close> when \<open>out\<close> is emitted.\<close>

definition received :: "gateway \<Rightarrow> emission list \<Rightarrow> conn_id \<Rightarrow> server_msg \<Rightarrow> nat" where
  "received g out v m = length (filter (\<lambda>p. p = (v, m)) (deliver g out))"

text \<open>
  The invariant of the states that such events reach: the room map is well formed, no
  socket is listed twice, and every member of a room is a connected socket.
\<close>

definition live_ok :: "gateway \<Rightarrow> bool" where
  "live_ok g =
     (rooms_ok (rooms g) \<and> distinct (sockets g) \<and>
      list_all (\<lambda>(r, rm). set (users rm) \<subseteq> set (sockets g)) (rooms g))"

section \<open>The peer negotiation orchestrator (client)\<close>

text \<open>
  The component keeps JavaScript objects that several places refer to: the
  \<^verbatim>\<open>PeerConnection\<close> records (held by the map \<^verbatim>\<open>peersRef.current\<close> and by the React
  state \<^verbatim>\<open>peers\<close>), the browser's \<^verbatim>\<open>RTCPeerConnection\<close> objects (held by the records
  and captured by the event callbacks), and the local \<^verbatim>\<open>MediaStreamTrack\<close> objects (held
  by the local stream and by the senders). Each kind lives in a store, a list indexed by
  reference; \<^verbatim>\<open>new\<close> and an object literal allocate at the end of the store. JavaScript
  has no dangling reference, so a reference is read with \<open>!\<close>.
\<close>

type_synonym ref = nat

definition alloc :: "'a list \<Rightarrow> 'a \<Rightarrow> 'a list \<times> ref" where
  "alloc h x = (h @ [x], length h)"

datatype track_kind = AudioKind | VideoKind

record media_track =
  kind :: track_kind
  enabled :: bool
  stopCalled :: bool

datatype connection_state = ConnNew | Connecting | Connected | Disconnected | Failed | Closed

datatype ice_connection_state =
  IceNew | IceChecking | IceConnected | IceCompleted | IceFailed | IceDisconnected | IceClosed

datatype signaling_state =
  Stable | HaveLocalOffer | HaveRemoteOffer | HaveLocalPranswer | HaveRemotePranswer | SigClosed

text \<open>
  An \<^verbatim>\<open>RTCPeerConnection\<close>, as far as the component uses it. The first six fields record
  the calls the component makes (\<^verbatim>\<open>setRemoteDescription\<close>, \<^verbatim>\<open>setLocalDescription\<close>,
  \<^verbatim>\<open>addIceCandidate\<close> in call order, \<^verbatim>\<open>addTrack\<close> and \<^verbatim>\<open>replaceTrack\<close>,
  \<^verbatim>\<open>close\<close>, \<^verbatim>\<open>restartIce\<close>); the three state fields belong to the browser, which
  sets them before it fires the matching state-change callback.
\<close>

record rtc_peer_connection =
  remoteDescription :: "session_description option"
  localDescription :: "session_description option"
  addedIceCandidates :: "ice_candidate list"
  senders :: "ref option list"
  closeCalled :: bool
  restartIceCalls :: nat
  connectionState :: connection_state
  iceConnectionState :: ice_connection_state
  signalingState :: signaling_state

definition new_RTCPeerConnection :: rtc_peer_connection where
  "new_RTCPeerConnection =
     \<lparr>remoteDescription = None, localDescription = None, addedIceCandidates = [],
      senders = [], closeCalled = False, restartIceCalls = 0, connectionState = ConnNew,
      iceConnectionState = IceNew, signalingState = Stable\<rparr>"

text \<open>
  The promises of the browser that the component awaits inside \<^verbatim>\<open>try\<close> blocks may
  reject. Whether they do is the browser's choice, a parameter of the model: \<open>None\<close> and
  \<open>False\<close> stand for a rejected promise. A rejected \<^verbatim>\<open>addIceCandidate\<close> is caught and
  logged at both call sites and changes no control flow, so the call is recorded either way.
\<close>

record browser =
  createOffer :: "rtc_peer_connection \<Rightarrow> session_description option"
  createAnswer :: "rtc_peer_connection \<Rightarrow> session_description option"
  acceptsLocal :: "rtc_peer_connection \<Rightarrow> session_description \<Rightarrow> bool"
  acceptsRemote :: "rtc_peer_connection \<Rightarrow> session_description \<Rightarrow> bool"

text \<open>\<^verbatim>\<open>interface PeerConnection\<close>; the remote stream is an opaque handle.\<close>

record peer_connection =
  userId :: conn_id
  connection :: ref
  stream :: "string option"
  iceCandidates :: "ice_candidate list"
  remoteDescriptionSet :: bool

datatype client_msg =
    JoinRoom room_id
  | Offer session_description conn_id
  | Answer session_description conn_id
  | IceCandidate ice_candidate conn_id

text \<open>
  The state of the component. \<open>socketOut\<close> lists what \<^verbatim>\<open>socket.emit\<close> has sent;
  \<open>socket\<close> and \<open>socketRef\<close> say whether the state \<^verbatim>\<open>socket\<close> and
  \<^verbatim>\<open>socketRef.current\<close> hold a socket; the React state \<^verbatim>\<open>peers\<close> is a copy of the
  map that shares its records.
\<close>

record client =
  peersRef :: "(conn_id \<times> ref) list"
  peers :: "(conn_id \<times> ref) list"
  peerObjs :: "peer_connection list"
  pcs :: "rtc_peer_connection list"
  tracks :: "media_track list"
  localStreamRef :: "ref list option"
  socketOut :: "client_msg list"
  socket :: bool
  socketRef :: bool
  isConnected :: bool
  connectionError :: "string option"
  hasJoinedRoom :: bool
  isAudioEnabled :: bool
  isVideoEnabled :: bool

definition emit :: "client \<Rightarrow> client_msg \<Rightarrow> client" where
  "emit s m = s\<lparr>socketOut := socketOut s @ [m]\<rparr>"

definition upd_pc :: "client \<Rightarrow> ref \<Rightarrow> (rtc_peer_connection \<Rightarrow> rtc_peer_connection) \<Rightarrow> client" where
  "upd_pc s r f = s\<lparr>pcs := (pcs s)[r := f (pcs s ! r)]\<rparr>"

definition upd_peer :: "client \<Rightarrow> ref \<Rightarrow> (peer_connection \<Rightarrow> peer_connection) \<Rightarrow> client" where
  "upd_peer s r f = s\<lparr>peerObjs := (peerObjs s)[r := f (peerObjs s ! r)]\<rparr>"

subsection \<open>The calls on an \<^verbatim>\<open>RTCPeerConnection\<close>\<close>

definition pc_close :: "client \<Rightarrow> ref \<Rightarrow> client" where
  "pc_close s r = upd_pc s r (\<lambda>p. p\<lparr>closeCalled := True\<rparr>)"

definition pc_addTrack :: "client \<Rightarrow> ref \<Rightarrow> ref \<Rightarrow> client" where
  "pc_addTrack s r t = upd_pc s r (\<lambda>p. p\<lparr>senders := senders p @ [Some t]\<rparr>)"

definition pc_addIceCandidate :: "client \<Rightarrow> ref \<Rightarrow> ice_candidate \<Rightarrow> client" where
  "pc_addIceCandidate s r c =
     upd_pc s r (\<lambda>p. p\<lparr>addedIceCandidates := addedIceCandidates p @ [c]\<rparr>)"

definition pc_restartIce :: "client \<Rightarrow> ref \<Rightarrow> client" where
  "pc_restartIce s r = upd_pc s r (\<lambda>p. p\<lparr>restartIceCalls := Suc (restartIceCalls p)\<rparr>)"

definition pc_setRemoteDescription ::
  "browser \<Rightarrow> client \<Rightarrow> ref \<Rightarrow> session_description \<Rightarrow> client option" where
  "pc_setRemoteDescription B s r d =
     (if acceptsRemote B (pcs s ! r) d
      then Some (upd_pc s r (\<lambda>p. p\<lparr>remoteDescription := Some d\<rparr>)) else None)"

definition pc_setLocalDescription ::
  "browser \<Rightarrow> client \<Rightarrow> ref \<Rightarrow> session_description \<Rightarrow> client option" where
  "pc_setLocalDescription B s r d =
     (if acceptsLocal B (pcs s ! r) d
      then Some (upd_pc s r (\<lambda>p. p\<lparr>localDescription := Some d\<rparr>)) else None)"

subsection \<open>\<^verbatim>\<open>createPeerConnection\<close> and \<^verbatim>\<open>addBufferedIceCandidates\<close>\<close>

text \<open>
  \<^verbatim>\<open>createPeerConnection(userId)\<close> closes the connection of an existing entry, makes a
  new \<^verbatim>\<open>RTCPeerConnection\<close>, adds the enabled local tracks, stores a new record
  \<^verbatim>\<open>newPeer\<close> under \<open>userId\<close> in \<^verbatim>\<open>peersRef.current\<close>, copies the map into the state
  \<^verbatim>\<open>peers\<close> and returns the connection (not the record).
\<close>

definition createPeerConnection :: "client \<Rightarrow> conn_id \<Rightarrow> client \<times> ref" where
  "createPeerConnection s uid =
     (let s1 = (case map_of (peersRef s) uid of
                  None \<Rightarrow> s
                | Some existingPeer \<Rightarrow> pc_close s (connection (peerObjs s ! existingPeer)));
          (pcs1, peerConnection) = alloc (pcs s1) new_RTCPeerConnection;
          s2 = s1\<lparr>pcs := pcs1\<rparr>;
          s3 = (case localStreamRef s2 of
                  None \<Rightarrow> s2
                | Some ts \<Rightarrow>
                    foldl (\<lambda>a t. if enabled (tracks a ! t) then pc_addTrack a peerConnection t else a)
                      s2 ts);
          (objs1, newPeer) =
             alloc (peerObjs s3)
               \<lparr>userId = uid, connection = peerConnection, stream = None,
                iceCandidates = [], remoteDescriptionSet = False\<rparr>;
          s4 = s3\<lparr>peerObjs := objs1\<rparr>;
          s5 = s4\<lparr>peersRef := js_map_set (peersRef s4) uid newPeer\<rparr>;
          s6 = s5\<lparr>peers := peersRef s5\<rparr>
      in (s6, peerConnection))"

definition addBufferedIceCandidates :: "client \<Rightarrow> ref \<Rightarrow> client" where
  "addBufferedIceCandidates s peer =
     (let p = peerObjs s ! peer in
      if length (iceCandidates p) > 0 \<and> remoteDescriptionSet p then
        (let s1 = foldl (\<lambda>a c. pc_addIceCandidate a (connection p) c) s (iceCandidates p)
         in upd_peer s1 peer (\<lambda>q. q\<lparr>iceCandidates := []\<rparr>))
      else s)"

subsection \<open>The socket event handlers\<close>

text \<open>
  Each handler is modelled as one step: it runs to its end before the next event is
  handled. One iteration of the loop of \<^verbatim>\<open>handleRoomUsers\<close>:
\<close>

definition room_user :: "browser \<Rightarrow> client \<Rightarrow> conn_id \<Rightarrow> client" where
  "room_user B s uid =
     (if js_map_has (peersRef s) uid then s
      else
        (let (s1, peerConnection) = createPeerConnection s uid in
         case createOffer B (pcs s1 ! peerConnection) of
           None \<Rightarrow> s1
         | Some sdp \<Rightarrow>
             (case pc_setLocalDescription B s1 peerConnection sdp of
                None \<Rightarrow> s1
              | Some s2 \<Rightarrow> emit s2 (Offer sdp uid))))"

definition handleRoomUsers :: "browser \<Rightarrow> client \<Rightarrow> conn_id list \<Rightarrow> client" where
  "handleRoomUsers B s us = foldl (room_user B) s us"

definition handleUserJoined :: "client \<Rightarrow> conn_id \<Rightarrow> client" where
  "handleUserJoined s uid =
     (if js_map_has (peersRef s) uid then s else fst (createPeerConnection s uid))"

text \<open>
  \<^verbatim>\<open>handleOffer\<close> on the client. When the map has no entry for the sender, the handler
  builds an object literal of its own around the connection that
  \<^verbatim>\<open>createPeerConnection\<close> returns; that literal is a second record, not the one
  \<^verbatim>\<open>createPeerConnection\<close> stored in the map.
\<close>

definition client_handleOffer ::
  "browser \<Rightarrow> client \<Rightarrow> session_description \<Rightarrow> conn_id \<Rightarrow> client" where
  "client_handleOffer B s sdp from =
     (let (s1, peer) =
        (case map_of (peersRef s) from of
           Some p \<Rightarrow> (s, p)
         | None \<Rightarrow>
             (let (s', peerConnection) = createPeerConnection s from;
                  (objs, p) =
                    alloc (peerObjs s')
                      \<lparr>userId = from, connection = peerConnection, stream = None,
                       iceCandidates = [], remoteDescriptionSet = False\<rparr>
              in (s'\<lparr>peerObjs := objs\<rparr>, p)));
          conn = connection (peerObjs s1 ! peer)
      in case pc_setRemoteDescription B s1 conn sdp of
           None \<Rightarrow> s1
         | Some s2 \<Rightarrow>
             (let s3 = upd_peer s2 peer (\<lambda>q. q\<lparr>remoteDescriptionSet := True\<rparr>);
                  s4 = addBufferedIceCandidates s3 peer
              in case createAnswer B (pcs s4 ! conn) of
                   None \<Rightarrow> s4
                 | Some ans \<Rightarrow>
                     (case pc_setLocalDescription B s4 conn ans of
                        None \<Rightarrow> s4
                      | Some s5 \<Rightarrow> emit s5 (Answer ans from))))"

definition client_handleAnswer ::
  "browser \<Rightarrow> client \<Rightarrow> session_description \<Rightarrow> conn_id \<Rightarrow> client" where
  "client_handleAnswer B s sdp from =
     (case map_of (peersRef s) from of
        None \<Rightarrow> s
      | Some peer \<Rightarrow>
          (case pc_setRemoteDescription B s (connection (peerObjs s ! peer)) sdp of
             None \<Rightarrow> s
           | Some s2 \<Rightarrow>
               addBufferedIceCandidates
                 (upd_peer s2 peer (\<lambda>q. q\<lparr>remoteDescriptionSet := True\<rparr>)) peer))"

definition client_handleIceCandidate :: "client \<Rightarrow> ice_candidate \<Rightarrow> conn_id \<Rightarrow> client" where
  "client_handleIceCandidate s cand from =
     (case map_of (peersRef s) from of
        None \<Rightarrow> s
      | Some peer \<Rightarrow>
          if \<not> remoteDescriptionSet (peerObjs s ! peer)
          then upd_peer s peer (\<lambda>q. q\<lparr>iceCandidates := iceCandidates q @ [cand]\<rparr>)
          else pc_addIceCandidate s (connection (peerObjs s ! peer)) cand)"

definition handleUserLeft :: "client \<Rightarrow> conn_id \<Rightarrow> client" where
  "handleUserLeft s uid =
     (case map_of (peersRef s) uid of
        None \<Rightarrow> s
      | Some peer \<Rightarrow>
          (let s1 = pc_close s (connection (peerObjs s ! peer));
               s2 = s1\<lparr>peersRef := js_map_delete (peersRef s1) uid\<rparr>
           in s2\<lparr>peers := peersRef s2\<rparr>))"

subsection \<open>The callbacks of a connection\<close>

text \<open>
  The callbacks that \<^verbatim>\<open>createPeerConnection(userId)\<close> installs close over \<open>userId\<close> and
  over the connection just made; both are parameters here.
\<close>

definition ontrack :: "client \<Rightarrow> conn_id \<Rightarrow> string option \<Rightarrow> client" where
  "ontrack s uid remoteStream =
     (case remoteStream of
        None \<Rightarrow> s
      | Some st \<Rightarrow>
          (case map_of (peers s) uid of
             None \<Rightarrow> s
           | Some peer \<Rightarrow> upd_peer s peer (\<lambda>q. q\<lparr>stream := Some st\<rparr>)))"

definition onconnectionstatechange :: "client \<Rightarrow> conn_id \<Rightarrow> ref \<Rightarrow> client" where
  "onconnectionstatechange s uid peerConnection =
     (let st = connectionState (pcs s ! peerConnection) in
      if st = Failed \<or> st = Disconnected then
        (case map_of (peersRef s) uid of
           None \<Rightarrow> s
         | Some peer \<Rightarrow>
             if signalingState (pcs s ! connection (peerObjs s ! peer)) = Stable
             then pc_restartIce s (connection (peerObjs s ! peer))
             else s)
      else if st = Closed then
        s\<lparr>peers := js_map_delete (peers s) uid, peersRef := js_map_delete (peersRef s) uid\<rparr>
      else s)"

definition oniceconnectionstatechange :: "client \<Rightarrow> conn_id \<Rightarrow> ref \<Rightarrow> client" where
  "oniceconnectionstatechange s uid peerConnection =
     (if iceConnectionState (pcs s ! peerConnection) = IceFailed
      then pc_restartIce s peerConnection else s)"

subsection \<open>The relay client: connect, reconnect, join and cleanup\<close>

text \<open>
  The \<^verbatim>\<open>connect\<close> and \<^verbatim>\<open>reconnect\<close> handlers close over the \<open>roomId\<close> and the
  \<open>hasJoinedRoom\<close> of the render whose effect made the socket, and read
  \<^verbatim>\<open>localStreamRef.current\<close> when they run.
\<close>

definition on_connect :: "room_id \<Rightarrow> bool \<Rightarrow> client \<Rightarrow> client" where
  "on_connect roomId joinedBefore s =
     (let s1 = s\<lparr>isConnected := True, connectionError := None\<rparr> in
      if joinedBefore \<and> localStreamRef s1 \<noteq> None then emit s1 (JoinRoom roomId) else s1)"

definition on_reconnect :: "room_id \<Rightarrow> bool \<Rightarrow> client \<Rightarrow> client" where
  "on_reconnect roomId joinedBefore s =
     (let s1 = s\<lparr>isConnected := True, connectionError := None\<rparr> in
      if joinedBefore \<and> localStreamRef s1 \<noteq> None then emit s1 (JoinRoom roomId) else s1)"

definition join_effect :: "room_id \<Rightarrow> client \<Rightarrow> client" where
  "join_effect roomId s =
     (if socket s \<and> localStreamRef s \<noteq> None \<and> isConnected s \<and> \<not> hasJoinedRoom s
      then (emit s (JoinRoom roomId))\<lparr>hasJoinedRoom := True\<rparr> else s)"

definition cleanup :: "client \<Rightarrow> client" where
  "cleanup s =
     (let s1 = foldl (\<lambda>a (uid, peer). pc_close a (connection (peerObjs a ! peer))) s (peersRef s);
          s2 = s1\<lparr>peersRef := [], peers := []\<rparr>;
          s3 = (case localStreamRef s2 of
                  None \<Rightarrow> s2
                | Some ts \<Rightarrow>
                    s2\<lparr>tracks := foldl (\<lambda>h t. h[t := (h ! t)\<lparr>stopCalled := True\<rparr>]) (tracks s2) ts,
                       localStreamRef := None\<rparr>)
      in s3\<lparr>socketRef := False, hasJoinedRoom := False, isConnected := False\<rparr>)"

subsection \<open>\<^verbatim>\<open>toggleAudio\<close> and \<^verbatim>\<open>toggleVideo\<close>\<close>

text \<open>
  \<^verbatim>\<open>getSenders().find((s) => s.track?.kind === k)\<close> followed by
  \<^verbatim>\<open>sender.replaceTrack(track)\<close>: the first sender that carries a track of the kind gets
  the track; a connection without such a sender is left alone.
\<close>

fun replace_first :: "('a \<Rightarrow> bool) \<Rightarrow> 'a \<Rightarrow> 'a list \<Rightarrow> 'a list" where
  "replace_first P y [] = []"
| "replace_first P y (x # xs) = (if P x then y # xs else x # replace_first P y xs)"

definition carries :: "media_track list \<Rightarrow> track_kind \<Rightarrow> ref option \<Rightarrow> bool" where
  "carries h k sd = (case sd of None \<Rightarrow> False | Some t \<Rightarrow> kind (h ! t) = k)"

definition replaceTrack :: "media_track list \<Rightarrow> track_kind \<Rightarrow> ref \<Rightarrow> rtc_peer_connection \<Rightarrow> rtc_peer_connection" where
  "replaceTrack h k t p = p\<lparr>senders := replace_first (carries h k) (Some t) (senders p)\<rparr>"

definition replace_in_peers :: "track_kind \<Rightarrow> ref \<Rightarrow> client \<Rightarrow> client" where
  "replace_in_peers k t s =
     foldl (\<lambda>a (uid, peer). upd_pc a (connection (peerObjs a ! peer)) (replaceTrack (tracks a) k t))
       s (peersRef s)"

definition toggleAudio :: "client \<Rightarrow> client" where
  "toggleAudio s =
     (case localStreamRef s of
        None \<Rightarrow> s
      | Some ts \<Rightarrow>
          (case find (\<lambda>t. kind (tracks s ! t) = AudioKind) ts of
             None \<Rightarrow> s
           | Some audioTrack \<Rightarrow>
               (let tr = tracks s ! audioTrack;
                    s1 = s\<lparr>tracks := (tracks s)[audioTrack := tr\<lparr>enabled := \<not> enabled tr\<rparr>]\<rparr>;
                    s2 = s1\<lparr>isAudioEnabled := enabled (tracks s1 ! audioTrack)\<rparr>
                in replace_in_peers AudioKind audioTrack s2)))"

definition toggleVideo :: "client \<Rightarrow> client" where
  "toggleVideo s =
     (case localStreamRef s of
        None \<Rightarrow> s
      | Some ts \<Rightarrow>
          (case find (\<lambda>t. kind (tracks s ! t) = VideoKind) ts of
             None \<Rightarrow> s
           | Some videoTrack \<Rightarrow>
               (let tr = tracks s ! videoTrack;
                    s1 = s\<lparr>tracks := (tracks s)[videoTrack := tr\<lparr>enabled := \<not> enabled tr\<rparr>]\<rparr>;
                    s2 = s1\<lparr>isVideoEnabled := enabled (tracks s1 ! videoTrack)\<rparr>
                in replace_in_peers VideoKind videoTrack s2)))"

section \<open>Vocabulary of the claims\<close>

text \<open>The offers, in order, that a list of outgoing client messages addresses to \<open>u\<close>.\<close>

fun offers_to :: "conn_id \<Rightarrow> client_msg list \<Rightarrow> session_description list" where
  "offers_to u [] = []"
| "offers_to u (Offer sdp v # ms) = (if v = u then sdp # offers_to u ms else offers_to u ms)"
| "offers_to u (m # ms) = offers_to u ms"

text \<open>
  The connection that \<^const>\<open>createPeerConnection\<close> makes, with the enabled local tracks
  attached, and the state it leaves when the map had no entry for \<open>uid\<close>.
\<close>

definition with_tracks :: "client \<Rightarrow> rtc_peer_connection \<Rightarrow> rtc_peer_connection" where
  "with_tracks s x =
     (case localStreamRef s of
        None \<Rightarrow> x
      | Some ts \<Rightarrow>
          foldl (\<lambda>p t. if enabled (tracks s ! t) then p\<lparr>senders := senders p @ [Some t]\<rparr> else p)
            x ts)"

definition fresh_peer :: "client \<Rightarrow> conn_id \<Rightarrow> client" where
  "fresh_peer s uid =
     s\<lparr>pcs := pcs s @ [with_tracks s new_RTCPeerConnection],
       peerObjs := peerObjs s @
         [\<lparr>userId = uid, connection = length (pcs s), stream = None,
           iceCandidates = [], remoteDescriptionSet = False\<rparr>],
       peersRef := AList.update uid (length (peerObjs s)) (peersRef s),
       peers := AList.update uid (length (peerObjs s)) (peersRef s)\<rparr>"

text \<open>
  An entry of the map is untouched between \<open>s\<close> and \<open>s'\<close>: the map still sends \<open>u\<close> to the
  same record, the record and its connection are what they were, and no further offer
  went out to \<open>u\<close>.
\<close>

definition keeps_peer :: "conn_id \<Rightarrow> ref \<Rightarrow> client \<Rightarrow> client \<Rightarrow> bool" where
  "keeps_peer u peer s s' =
     (map_of (peersRef s') u = Some peer \<and>
      peer < length (peerObjs s') \<and>
      peerObjs s' ! peer = peerObjs s ! peer \<and>
      connection (peerObjs s ! peer) < length (pcs s') \<and>
      pcs s' ! connection (peerObjs s ! peer) = pcs s ! connection (peerObjs s ! peer) \<and>
      offers_to u (socketOut s') = offers_to u (socketOut s))"

text \<open>
  \<^verbatim>\<open>localStreamRef.current.getAudioTracks()[0]\<close> and its video twin: the first track of
  the kind in the local stream.
\<close>

definition first_track :: "track_kind \<Rightarrow> client \<Rightarrow> ref option" where
  "first_track k s =
     (case localStreamRef s of None \<Rightarrow> None | Some ts \<Rightarrow> find (\<lambda>t. kind (tracks s ! t) = k) ts)"

text \<open>
  What a toggle must leave alone: the outgoing messages, both maps, every
  \<^verbatim>\<open>PeerConnection\<close> record (so every queue, flag and remote stream), the relay
  client's state, and of every connection all but its senders.
\<close>

definition toggle_frame :: "client \<Rightarrow> client \<Rightarrow> bool" where
  "toggle_frame s s' =
     (socketOut s' = socketOut s \<and> peersRef s' = peersRef s \<and> peers s' = peers s \<and>
      peerObjs s' = peerObjs s \<and> localStreamRef s' = localStreamRef s \<and>
      socket s' = socket s \<and> socketRef s' = socketRef s \<and> isConnected s' = isConnected s \<and>
      connectionError s' = connectionError s \<and> hasJoinedRoom s' = hasJoinedRoom s \<and>
      map (\<lambda>p. p\<lparr>senders := []\<rparr>) (pcs s') = map (\<lambda>p. p\<lparr>senders := []\<rparr>) (pcs s))"

text \<open>
  The substitution the claim speaks of, said of the senders themselves: \<open>i\<close> is the first
  position of the list of senders whose sender carries a track of kind \<open>k\<close>.
\<close>

definition first_of_kind ::
  "media_track list \<Rightarrow> track_kind \<Rightarrow> ref option list \<Rightarrow> nat \<Rightarrow> bool" where
  "first_of_kind h k sds i =
     (i < length sds \<and>
      (case sds ! i of None \<Rightarrow> False | Some tr \<Rightarrow> kind (h ! tr) = k) \<and>
      (\<forall>j<i. case sds ! j of None \<Rightarrow> True | Some tr \<Rightarrow> kind (h ! tr) \<noteq> k))"

text \<open>
  On the connection of every entry of the map, the sender at that first position now
  carries the track \<open>t\<close> and the other senders are what they were; a connection with no
  sender of the kind keeps its senders.
\<close>

definition substituted :: "track_kind \<Rightarrow> ref \<Rightarrow> client \<Rightarrow> client \<Rightarrow> bool" where
  "substituted k t s s' =
     (\<forall>(uid, peer) \<in> set (peersRef s).
        connection (peerObjs s ! peer) < length (pcs s) \<longrightarrow>
        (\<forall>i. first_of_kind (tracks s) k (senders (pcs s ! connection (peerObjs s ! peer))) i \<longrightarrow>
             senders (pcs s' ! connection (peerObjs s ! peer)) =
               (senders (pcs s ! connection (peerObjs s ! peer)))[i := Some t]) \<and>
        ((\<forall>i. \<not> first_of_kind (tracks s) k (senders (pcs s ! connection (peerObjs s ! peer))) i) \<longrightarrow>
             senders (pcs s' ! connection (peerObjs s ! peer)) =
               senders (pcs s ! connection (peerObjs s ! peer))))"

text \<open>A connection that no entry of the map refers to is what it was.\<close>

definition others_kept :: "client \<Rightarrow> client \<Rightarrow> bool" where
  "others_kept s s' =
     (\<forall>c < length (pcs s).
        c \<notin> set (map (\<lambda>(uid, peer). connection (peerObjs s ! peer)) (peersRef s)) \<longrightarrow>
        pcs s' ! c = pcs s ! c)"

section \<open>Concrete states\<close>

text \<open>Three sockets, two of them in room \<open>r1\<close>.\<close>

definition two_in_room :: gateway where
  "two_in_room =
     fst (handleJoinRoom (fst (handleJoinRoom
            (sio_connect (sio_connect (sio_connect init_gateway ''X'') ''Y'') ''Z'')
            ''X'' ''r1'')) ''Y'' ''r1'')"

definition three_joins :: "room_event list" where
  "three_joins = [Join ''A'' ''r1'', Join ''B'' ''r1'', Join ''J'' ''r1'']"

text \<open>
  Three connected sockets in room \<open>r1\<close>; the same with \<open>B\<close> also in a room named \<open>J\<close>;
  and \<open>A\<close> and \<open>B\<close> in \<open>r1\<close> with \<open>X\<close> in a room named \<open>B\<close>.
\<close>

definition three_live :: "gateway_event list" where
  "three_live =
     [Connects ''A'', Connects ''B'', Connects ''J'',
      Joins ''A'' ''r1'', Joins ''B'' ''r1'', Joins ''J'' ''r1'']"

definition aliased_live :: "gateway_event list" where
  "aliased_live = three_live @ [Joins ''B'' ''J'']"

definition overheard_live :: "gateway_event list" where
  "overheard_live =
     [Connects ''A'', Connects ''B'', Connects ''X'',
      Joins ''A'' ''r1'', Joins ''B'' ''r1'', Joins ''X'' ''B'']"

definition two_joins :: "room_event list" where
  "two_joins = [Join ''X'' ''r1'', Join ''Y'' ''r1'']"

text \<open>A client with a local stream of one audio and one video track and no peers.\<close>

definition init_client :: client where
  "init_client =
     \<lparr>peersRef = [], peers = [], peerObjs = [], pcs = [],
      tracks = [\<lparr>kind = AudioKind, enabled = True, stopCalled = False\<rparr>,
                \<lparr>kind = VideoKind, enabled = True, stopCalled = False\<rparr>],
      localStreamRef = Some [0, 1], socketOut = [], socket = True, socketRef = True,
      isConnected = True,
      connectionError = None, hasJoinedRoom = False, isAudioEnabled = True,
      isVideoEnabled = True\<rparr>"

text \<open>
  A client whose local stream has two audio tracks and a video track; it mutes the first
  audio track, and then learns of the peer \<open>Y\<close>, whose connection gets the enabled tracks.
\<close>

definition two_mics :: client where
  "two_mics =
     \<lparr>peersRef = [], peers = [], peerObjs = [], pcs = [],
      tracks = [\<lparr>kind = AudioKind, enabled = True, stopCalled = False\<rparr>,
                \<lparr>kind = AudioKind, enabled = True, stopCalled = False\<rparr>,
                \<lparr>kind = VideoKind, enabled = True, stopCalled = False\<rparr>],
      localStreamRef = Some [0, 1, 2], socketOut = [], socket = True, socketRef = True,
      isConnected = True, connectionError = None, hasJoinedRoom = False, isAudioEnabled = True,
      isVideoEnabled = True\<rparr>"

definition muted_then_joined :: client where
  "muted_then_joined = handleUserJoined (toggleAudio two_mics) ''Y''"

text \<open>A browser none of whose promises rejects.\<close>

definition willing_browser :: browser where
  "willing_browser =
     \<lparr>createOffer = (\<lambda>p. Some ''offer-sdp''), createAnswer = (\<lambda>p. Some ''answer-sdp''),
      acceptsLocal = (\<lambda>p d. True), acceptsRemote = (\<lambda>p d. True)\<rparr>"

definition tracked_pc :: rtc_peer_connection where
  "tracked_pc = new_RTCPeerConnection\<lparr>senders := [Some 0, Some 1]\<rparr>"

definition peer_of :: "conn_id \<Rightarrow> ref \<Rightarrow> peer_connection" where
  "peer_of uid c =
     \<lparr>userId = uid, connection = c, stream = None, iceCandidates = [],
      remoteDescriptionSet = False\<rparr>"

definition one_peer :: client where
  "one_peer = handleUserJoined init_client ''Y''"

text \<open>
  The peer \<open>Y\<close> has delivered a remote stream, and the browser then reports the
  connection as failed.
\<close>

definition failed_peer :: client where
  "failed_peer =
     upd_pc (ontrack one_peer ''Y'' (Some ''stream-Y'')) 0 (\<lambda>p. p\<lparr>connectionState := Failed\<rparr>)"

text \<open>An offer from \<open>Y\<close> reaches a client that has no entry for \<open>Y\<close>.\<close>

definition after_unsolicited_offer :: client where
  "after_unsolicited_offer = client_handleOffer willing_browser init_client ''offer-Y'' ''Y''"

section \<open>Lemmas about the gateway\<close>

lemma room_update_users: "(rm::room)\<lparr>users := v\<rparr> = \<lparr>users = v\<rparr>"
  by (cases rm) simp

lemma leave_rooms_Cons:
  "leave_rooms c ((r, rm) # rest) =
     (if c \<in> set (users rm)
      then (if removeAll c (users rm) = [] then fst (leave_rooms c rest)
            else (r, rm\<lparr>users := removeAll c (users rm)\<rparr>) # fst (leave_rooms c rest),
            map (\<lambda>u. ToChannel u (UserLeft c)) (removeAll c (users rm)) @ snd (leave_rooms c rest))
      else ((r, rm) # fst (leave_rooms c rest), snd (leave_rooms c rest)))"
  by (simp add: split_beta Let_def js_set_delete_def)

declare leave_rooms.simps(2) [simp del]

lemma fst_leave_rooms_Cons:
  "fst (leave_rooms c ((r, rm) # rest)) =
     (if c \<in> set (users rm)
      then (if removeAll c (users rm) = [] then fst (leave_rooms c rest)
            else (r, rm\<lparr>users := removeAll c (users rm)\<rparr>) # fst (leave_rooms c rest))
      else (r, rm) # fst (leave_rooms c rest))"
  by (simp add: leave_rooms_Cons)

lemma snd_leave_rooms_Cons:
  "snd (leave_rooms c ((r, rm) # rest)) =
     (if c \<in> set (users rm)
      then map (\<lambda>u. ToChannel u (UserLeft c)) (removeAll c (users rm)) @ snd (leave_rooms c rest)
      else snd (leave_rooms c rest))"
  by (simp add: leave_rooms_Cons)

text \<open>A disconnect creates no room.\<close>

lemma leave_rooms_keys: "set (map fst (fst (leave_rooms c rs))) \<subseteq> set (map fst rs)"
proof (induction rs)
  case Nil
  then show ?case by simp
next
  case (Cons p rs)
  obtain r rm where p: "p = (r, rm)" by (cases p)
  from Cons.IH show ?case
    unfolding p fst_leave_rooms_Cons by (simp split: if_splits) blast
qed

lemma leave_rooms_distinct:
  "distinct (map fst rs) \<Longrightarrow> distinct (map fst (fst (leave_rooms c rs)))"
proof (induction rs)
  case Nil
  then show ?case by simp
next
  case (Cons p rs)
  obtain r rm where p: "p = (r, rm)" by (cases p)
  from Cons.prems p have "r \<notin> set (map fst rs)" and d: "distinct (map fst rs)" by simp_all
  with leave_rooms_keys[of c rs] have "r \<notin> set (map fst (fst (leave_rooms c rs)))" by blast
  with Cons.IH[OF d] p show ?case by (simp add: fst_leave_rooms_Cons)
qed

text \<open>What a disconnect leaves of each room, read through the map.\<close>

lemma leave_rooms_map_of:
  "distinct (map fst rs) \<Longrightarrow>
   map_of (fst (leave_rooms c rs)) r =
     (case map_of rs r of
        None \<Rightarrow> None
      | Some rm \<Rightarrow>
          if c \<in> set (users rm)
          then (if removeAll c (users rm) = [] then None
                else Some (rm\<lparr>users := removeAll c (users rm)\<rparr>))
          else Some rm)"
proof (induction rs)
  case Nil
  then show ?case by simp
next
  case (Cons p rs)
  obtain r' rm where p: "p = (r', rm)" by (cases p)
  from Cons.prems p have notin: "r' \<notin> set (map fst rs)" and d: "distinct (map fst rs)"
    by simp_all
  with leave_rooms_keys[of c rs] have "r' \<notin> set (map fst (fst (leave_rooms c rs)))" by blast
  then have gone: "map_of (fst (leave_rooms c rs)) r' = None"
    by (simp add: map_of_eq_None_iff)
  from notin have none: "map_of rs r' = None" by (simp add: map_of_eq_None_iff)
  show ?case
  proof (cases "r = r'")
    case True
    with p gone none show ?thesis
      by (simp add: fst_leave_rooms_Cons)
  next
    case False
    with p Cons.IH[OF d] show ?thesis
      by (simp add: fst_leave_rooms_Cons)
  qed
qed

lemma leave_rooms_ok: "rooms_ok rs \<Longrightarrow> rooms_ok (fst (leave_rooms c rs))"
  unfolding rooms_ok_def
  apply (rule conjI)
   apply (simp add: leave_rooms_distinct)
  apply (induction rs)
   apply (auto simp: fst_leave_rooms_Cons distinct_removeAll split: if_splits)
  done

lemma leave_rooms_out:
  "snd (leave_rooms c rs) =
     concat (map (\<lambda>(r, rm). if c \<in> set (users rm)
                              then map (\<lambda>u. ToChannel u (UserLeft c)) (removeAll c (users rm))
                              else []) rs)"
  by (induction rs) (auto simp: snd_leave_rooms_Cons)

lemma members_disconnect:
  "distinct (map fst (rooms g)) \<Longrightarrow>
   members (fst (handleDisconnect g c)) r = removeAll c (members g r)"
  by (auto simp: members_def handleDisconnect_def split_beta leave_rooms_map_of
        split: option.splits)

lemma members_join:
  "members (fst (handleJoinRoom g c r')) r =
     (if r = r' then js_set_add (members g r) c else members g r)"
  by (auto simp: members_def handleJoinRoom_def Let_def js_map_has_def js_map_set_def sio_join_def
        update_conv' split: option.splits)

lemma list_all_update:
  "list_all P al \<Longrightarrow> P (k, v) \<Longrightarrow> list_all P (AList.update k v al)"
  by (induction al) auto

lemma rooms_join:
  "rooms (fst (handleJoinRoom g c r)) =
     AList.update r (\<lparr>users = js_set_add (members g r) c\<rparr>) (rooms g)"
  by (auto simp: members_def handleJoinRoom_def Let_def js_map_has_def js_map_set_def sio_join_def
        update_conv' room_update_users split: option.splits)

lemma out_join:
  "snd (handleJoinRoom g c r) =
     map (\<lambda>u. ToChannel u (UserJoined c)) (members g r) @
     [ToSocket c (RoomUsers (filter (\<lambda>id. id \<noteq> c) (js_set_add (members g r) c)))]"
  by (auto simp: members_def handleJoinRoom_def Let_def js_map_has_def js_map_set_def sio_join_def
        update_conv' split: option.splits)

text \<open>
  A join by a connection that is not yet a member: every member is told once, the joiner
  is sent the members, and the joiner is appended to the room.
\<close>

lemma join_first_time:
  assumes "c \<notin> set (members g r)"
  shows "snd (handleJoinRoom g c r) =
           map (\<lambda>u. ToChannel u (UserJoined c)) (members g r) @
           [ToSocket c (RoomUsers (members g r))]"
    and "members (fst (handleJoinRoom g c r)) r = members g r @ [c]"
proof -
  from assms have "filter (\<lambda>id. id \<noteq> c) (members g r) = members g r"
    by (auto simp: filter_id_conv)
  with assms show "snd (handleJoinRoom g c r) =
           map (\<lambda>u. ToChannel u (UserJoined c)) (members g r) @
           [ToSocket c (RoomUsers (members g r))]"
    by (simp add: out_join js_set_add_def)
  from assms show "members (fst (handleJoinRoom g c r)) r = members g r @ [c]"
    by (simp add: members_join js_set_add_def)
qed

lemma members_distinct: "rooms_ok (rooms g) \<Longrightarrow> distinct (members g r)"
  by (auto simp: rooms_ok_def members_def list_all_iff split: option.splits dest!: map_of_SomeD)

lemma join_ok: "rooms_ok (rooms g) \<Longrightarrow> rooms_ok (rooms (fst (handleJoinRoom g c r)))"
proof -
  assume ok: "rooms_ok (rooms g)"
  then have d: "distinct (members g r)" by (rule members_distinct)
  have "distinct (js_set_add (members g r) c)" "js_set_add (members g r) c \<noteq> []"
    using d by (auto simp: js_set_add_def)
  with ok show ?thesis
    unfolding rooms_join rooms_ok_def
    by (simp add: distinct_update list_all_update)
qed

lemma disconnect_ok: "rooms_ok (rooms g) \<Longrightarrow> rooms_ok (rooms (fst (handleDisconnect g c)))"
  by (simp add: handleDisconnect_def split_beta leave_rooms_ok)

lemma rooms_sio_close: "rooms (sio_close g c) = rooms g"
  by (simp add: sio_close_def)

lemma members_sio_close: "members (sio_close g c) r = members g r"
  by (simp add: members_def rooms_sio_close)

lemma step_ok: "rooms_ok (rooms g) \<Longrightarrow> rooms_ok (rooms (room_step g e))"
  by (cases e) (simp_all add: join_ok disconnect_ok rooms_sio_close)

lemma run_snoc: "run_events g (es @ [e]) = room_step (run_events g es) e"
  by (simp add: run_events_def)

text \<open>The invariant holds in every state that joins and disconnects reach.\<close>

lemma run_ok: "rooms_ok (rooms (run_events init_gateway es))"
proof (induction es rule: rev_induct)
  case Nil
  then show ?case by (simp add: run_events_def init_gateway_def rooms_ok_def)
next
  case (snoc e es)
  then show ?case by (simp add: run_snoc step_ok)
qed

lemma members_step:
  "rooms_ok (rooms g) \<Longrightarrow>
   set (members (room_step g e) r) =
     (case e of Join c r' \<Rightarrow> if r' = r then insert c (set (members g r)) else set (members g r)
              | Disconnect c \<Rightarrow> set (members g r) - {c})"
  by (cases e)
     (auto simp: members_join members_disconnect members_sio_close rooms_sio_close rooms_ok_def
        js_set_add_def)

lemma count_distinct:
  "distinct ys \<Longrightarrow> length (filter (\<lambda>v. v = u) ys) = (if u \<in> set ys then 1 else 0)"
  by (induction ys) auto

lemma count_notes:
  "distinct xs \<Longrightarrow>
   length (filter (\<lambda>e. e = ToChannel u m) (map (\<lambda>v. ToChannel v m) (removeAll c xs))) =
     (if u \<in> set xs \<and> u \<noteq> c then 1 else 0)"
proof -
  assume d: "distinct xs"
  have "filter (\<lambda>e. e = ToChannel u m) (map (\<lambda>v. ToChannel v m) (removeAll c xs)) =
        map (\<lambda>v. ToChannel v m) (filter (\<lambda>v. v = u) (removeAll c xs))"
    by (simp add: filter_map comp_def)
  then show ?thesis
    using d count_distinct[of "removeAll c xs" u] by (simp add: distinct_removeAll)
qed

lemma count_leave:
  "list_all (\<lambda>(r, rm). distinct (users rm)) rs \<Longrightarrow>
   length (filter (\<lambda>e. e = ToChannel u (UserLeft c)) (snd (leave_rooms c rs))) =
   length (filter (\<lambda>(r, rm). c \<in> set (users rm) \<and> u \<in> set (users rm) \<and> u \<noteq> c) rs)"
proof (induction rs)
  case Nil
  then show ?case by simp
next
  case (Cons p rs)
  obtain r rm where p: "p = (r, rm)" by (cases p)
  from Cons.prems p have d: "distinct (users rm)"
    and rest: "list_all (\<lambda>(r, rm). distinct (users rm)) rs" by simp_all
  show ?case
    unfolding p snd_leave_rooms_Cons
    using Cons.IH[OF rest] count_notes[OF d, of u "UserLeft c" c] by simp
qed

lemma rooms_ok_distinct: "rooms_ok rs \<Longrightarrow> list_all (\<lambda>(r, rm). distinct (users rm)) rs"
  by (auto simp: rooms_ok_def list_all_iff)

lemma forwardedI: "forwarded g t m (g, [ToChannel t m])"
proof -
  have "t \<notin> fst ` set (joined g) \<Longrightarrow> (t, s) \<notin> set (joined g)" for s
    by force
  then show ?thesis
    by (auto simp: forwarded_def deliver_def channel_members_def filter_empty_conv)
qed

lemma members_subset:
  "list_all (\<lambda>(r, rm). set (users rm) \<subseteq> S) (rooms g) \<Longrightarrow> set (members g r) \<subseteq> S"
proof (cases "map_of (rooms g) r")
  case None
  then show ?thesis by (simp add: members_def)
next
  case (Some rm)
  assume all: "list_all (\<lambda>(r, rm). set (users rm) \<subseteq> S) (rooms g)"
  from Some have "(r, rm) \<in> set (rooms g)" by (rule map_of_SomeD)
  with all have "set (users rm) \<subseteq> S" by (auto simp: list_all_iff)
  with Some show ?thesis by (simp add: members_def)
qed

lemma join_live: "live_ok g \<Longrightarrow> c \<in> set (sockets g) \<Longrightarrow> live_ok (fst (handleJoinRoom g c r))"
proof -
  assume ok: "live_ok g" and c: "c \<in> set (sockets g)"
  then have sub: "set (members g r) \<subseteq> set (sockets g)"
    by (simp add: live_ok_def members_subset)
  have s: "sockets (fst (handleJoinRoom g c r)) = sockets g"
    by (auto simp: handleJoinRoom_def Let_def sio_join_def split: option.splits)
  from sub c have "set (js_set_add (members g r) c) \<subseteq> set (sockets g)"
    by (auto simp: js_set_add_def)
  with ok have "list_all (\<lambda>(r, rm). set (users rm) \<subseteq> set (sockets g))
                  (rooms (fst (handleJoinRoom g c r)))"
    unfolding rooms_join by (simp add: live_ok_def list_all_update)
  with ok show ?thesis
    unfolding live_ok_def s by (simp add: join_ok)
qed

lemma leave_rooms_subset:
  "list_all (\<lambda>(r, rm). set (users rm) \<subseteq> S) rs \<Longrightarrow>
   list_all (\<lambda>(r, rm). set (users rm) \<subseteq> S - {c}) (fst (leave_rooms c rs))"
  by (induction rs) (auto simp: fst_leave_rooms_Cons)

lemma disconnect_live: "live_ok g \<Longrightarrow> live_ok (fst (handleDisconnect (sio_close g c) c))"
proof -
  assume ok: "live_ok g"
  have r: "rooms (fst (handleDisconnect (sio_close g c) c)) = fst (leave_rooms c (rooms g))"
    by (simp add: handleDisconnect_def split_beta sio_close_def)
  have s: "sockets (fst (handleDisconnect (sio_close g c) c)) = removeAll c (sockets g)"
    by (simp add: handleDisconnect_def split_beta sio_close_def js_set_delete_def)
  from ok show ?thesis
    unfolding live_ok_def r s
    using leave_rooms_subset[of "set (sockets g)" "rooms g" c]
    by (simp add: leave_rooms_ok distinct_removeAll)
qed

lemma connect_live: "live_ok g \<Longrightarrow> live_ok (fst (handleConnection (sio_connect g c) c))"
  by (auto simp: live_ok_def handleConnection_def sio_connect_def js_set_add_def list_all_iff)

lemma step_live: "live_ok g \<Longrightarrow> live_ok (gateway_step g e)"
  by (cases e) (simp_all add: join_live disconnect_live connect_live)

text \<open>The invariant holds in every state that connections, joins and disconnects reach.\<close>

lemma live_run_ok: "live_ok (live_run es)"
proof (induction es rule: rev_induct)
  case Nil
  then show ?case by (simp add: live_run_def init_gateway_def live_ok_def rooms_ok_def)
next
  case (snoc e es)
  then show ?case by (simp add: live_run_def step_live)
qed

lemma filter_own: "distinct xs \<Longrightarrow> u \<in> set xs \<Longrightarrow> filter (\<lambda>s. s = u) xs = [u]"
  by (induction xs) (auto simp: filter_empty_conv)

text \<open>Without aliasing the channel of a connected socket holds that socket alone.\<close>

lemma channel_own:
  assumes "distinct (sockets g)" "no_alias g" "u \<in> set (sockets g)"
  shows "channel_members g u = [u]"
proof -
  from assms(2,3) have "(u, s) \<notin> set (joined g)" for s
    by (auto simp: no_alias_def list_all_iff)
  then have "channel_members g u = filter (\<lambda>s. s = u) (sockets g)"
    by (simp add: channel_members_def)
  also have "\<dots> = [u]"
    using assms(1,3) by (rule filter_own)
  finally show ?thesis .
qed

lemma deliver_plain:
  assumes "distinct (sockets g)" "no_alias g"
    and "\<forall>e \<in> set out. \<exists>u. e = ToChannel u m \<and> u \<in> set (sockets g)"
  shows "deliver g out =
           map (\<lambda>e. case e of ToChannel u m' \<Rightarrow> (u, m') | ToSocket u m' \<Rightarrow> (u, m')) out"
  using assms(3)
proof (induction out)
  case Nil
  then show ?case by (simp add: deliver_def)
next
  case (Cons e out)
  then obtain u where e: "e = ToChannel u m" and u: "u \<in> set (sockets g)" by auto
  from Cons have "deliver g out =
     map (\<lambda>e. case e of ToChannel u m' \<Rightarrow> (u, m') | ToSocket u m' \<Rightarrow> (u, m')) out" by simp
  then show ?case
    using e channel_own[OF assms(1,2) u] by (simp add: deliver_def)
qed

lemma received_plain:
  assumes "distinct (sockets g)" "no_alias g"
    and "\<forall>e \<in> set out. \<exists>u. e = ToChannel u m \<and> u \<in> set (sockets g)"
  shows "received g out v m = length (filter (\<lambda>e. e = ToChannel v m) out)"
proof -
  let ?f = "\<lambda>e. case e of ToChannel u m' \<Rightarrow> (u, m') | ToSocket u m' \<Rightarrow> (u, m')"
  have "filter (\<lambda>e. ?f e = (v, m)) out = filter (\<lambda>e. e = ToChannel v m) out"
    using assms(3) by (intro filter_cong) auto
  then show ?thesis
    unfolding received_def deliver_plain[OF assms]
    by (simp add: filter_map comp_def)
qed

lemma sio_close_no_alias: "no_alias g \<Longrightarrow> no_alias (sio_close g c)"
  by (auto simp: no_alias_def sio_close_def js_set_delete_def list_all_iff)

lemma leave_out_targets:
  "list_all (\<lambda>(r, rm). set (users rm) \<subseteq> S) rs \<Longrightarrow>
   \<forall>e \<in> set (snd (leave_rooms c rs)). \<exists>u. e = ToChannel u (UserLeft c) \<and> u \<in> S - {c}"
  unfolding leave_rooms_out by (fastforce simp: list_all_iff split: if_splits)

section \<open>Lemmas about the orchestrator\<close>

lemma offers_to_append: "offers_to u (xs @ ys) = offers_to u xs @ offers_to u ys"
  by (induction u xs rule: offers_to.induct) auto

lemma addTracks_last:
  "foldl (\<lambda>a t. if enabled (tracks a ! t) then pc_addTrack a (length h) t else a)
     (s\<lparr>pcs := h @ [x]\<rparr>) ts =
   s\<lparr>pcs := h @ [foldl (\<lambda>p t. if enabled (tracks s ! t)
                                 then p\<lparr>senders := senders p @ [Some t]\<rparr> else p) x ts]\<rparr>"
proof (induction ts arbitrary: x)
  case Nil
  then show ?case by simp
next
  case (Cons t ts)
  have "pc_addTrack (s\<lparr>pcs := h @ [x]\<rparr>) (length h) t =
        s\<lparr>pcs := h @ [x\<lparr>senders := senders x @ [Some t]\<rparr>]\<rparr>"
    by (simp add: pc_addTrack_def upd_pc_def)
  with Cons.IH show ?case by simp
qed

text \<open>For an unknown user the new connection and the new record go to the ends of the stores.\<close>

lemma createPeerConnection_fresh:
  "map_of (peersRef s) uid = None \<Longrightarrow>
   createPeerConnection s uid = (fresh_peer s uid, length (pcs s))"
  by (cases "localStreamRef s")
     (simp_all add: createPeerConnection_def alloc_def js_map_set_def fresh_peer_def with_tracks_def
        addTracks_last)

lemma room_user_known: "map_of (peersRef s) uid = Some p \<Longrightarrow> room_user B s uid = s"
  by (simp add: room_user_def js_map_has_def)

lemma room_user_fresh:
  assumes "map_of (peersRef s) uid = None"
  shows "\<exists>x out. room_user B s uid =
           (fresh_peer s uid)\<lparr>pcs := pcs s @ [x], socketOut := socketOut s @ out\<rparr> \<and>
           (out = [] \<or> (\<exists>sdp. out = [Offer sdp uid]))"
proof -
  let ?f = "fresh_peer s uid"
  have cp: "createPeerConnection s uid = (?f, length (pcs s))"
    using assms by (rule createPeerConnection_fresh)
  have base: "?f = ?f\<lparr>pcs := pcs s @ [with_tracks s new_RTCPeerConnection],
                       socketOut := socketOut s @ []\<rparr>"
    by (simp add: fresh_peer_def)
  show ?thesis
  proof (cases "createOffer B (pcs ?f ! length (pcs s))")
    case None
    with assms cp have "room_user B s uid = ?f"
      by (simp add: room_user_def js_map_has_def)
    with base show ?thesis by metis
  next
    case (Some sdp)
    show ?thesis
    proof (cases "acceptsLocal B (pcs ?f ! length (pcs s)) sdp")
      case False
      with assms cp Some have "room_user B s uid = ?f"
        by (simp add: room_user_def js_map_has_def pc_setLocalDescription_def)
      with base show ?thesis by metis
    next
      case True
      with assms cp Some have "room_user B s uid =
         ?f\<lparr>pcs := pcs s @ [(with_tracks s new_RTCPeerConnection)\<lparr>localDescription := Some sdp\<rparr>],
            socketOut := socketOut s @ [Offer sdp uid]\<rparr>"
        by (simp add: room_user_def js_map_has_def pc_setLocalDescription_def upd_pc_def emit_def
            fresh_peer_def)
      then show ?thesis by blast
    qed
  qed
qed

lemma room_user_keeps:
  assumes "keeps_peer u peer s a"
  shows "keeps_peer u peer s (room_user B a v)"
proof (cases "map_of (peersRef a) v")
  case (Some p)
  with assms show ?thesis by (simp add: room_user_known)
next
  case None
  with assms have ne: "v \<noteq> u" by (auto simp: keeps_peer_def)
  from room_user_fresh[OF None, of B] obtain x out where
    eq: "room_user B a v = (fresh_peer a v)\<lparr>pcs := pcs a @ [x], socketOut := socketOut a @ out\<rparr>"
    and out: "out = [] \<or> (\<exists>sdp. out = [Offer sdp v])" by blast
  from out ne have "offers_to u out = []" by auto
  with assms ne show ?thesis
    unfolding eq keeps_peer_def
    by (simp add: fresh_peer_def update_conv' nth_append offers_to_append)
qed

lemma handleRoomUsers_keeps:
  "keeps_peer u peer s a \<Longrightarrow> keeps_peer u peer s (handleRoomUsers B a us)"
  unfolding handleRoomUsers_def
  by (induction us arbitrary: a) (simp_all add: room_user_keeps)

lemma replace_first_idem:
  "P y \<Longrightarrow> replace_first P y (replace_first P y xs) = replace_first P y xs"
  by (induction xs) auto

lemma fold_update_nth:
  assumes idem: "\<And>x. f (f x) = f x"
  shows "c < length h \<Longrightarrow>
         foldl (\<lambda>h c. h[c := f (h ! c)]) h cs ! c = (if c \<in> set cs then f (h ! c) else h ! c)"
proof (induction cs arbitrary: h)
  case Nil
  then show ?case by simp
next
  case (Cons c0 cs)
  let ?h = "h[c0 := f (h ! c0)]"
  from Cons.prems have len: "c < length ?h" by simp
  show ?case
  proof (cases "c = c0")
    case True
    with Cons.prems have "?h ! c = f (h ! c)" by simp
    with Cons.IH[OF len] True show ?thesis by (simp add: idem)
  next
    case False
    then have "?h ! c = h ! c" by simp
    with Cons.IH[OF len] False show ?thesis by simp
  qed
qed

lemma fold_update_map:
  assumes same: "\<And>x. g (f x) = g x"
  shows "map g (foldl (\<lambda>h c. h[c := f (h ! c)]) h cs) = map g h"
proof (induction cs arbitrary: h)
  case Nil
  then show ?case by simp
next
  case (Cons c0 cs)
  have "map g (h[c0 := f (h ! c0)]) = map g h"
  proof (cases "c0 < length h")
    case True
    then show ?thesis by (simp add: map_update same list_update_same_conv)
  next
    case False
    then show ?thesis by (simp add: list_update_beyond)
  qed
  with Cons.IH[of "h[c0 := f (h ! c0)]"] show ?case by simp
qed

lemma replace_in_peers_fold:
  "foldl (\<lambda>a (uid, peer). upd_pc a (connection (peerObjs a ! peer)) (replaceTrack (tracks a) k t))
     (s\<lparr>pcs := h\<rparr>) ps =
   s\<lparr>pcs := foldl (\<lambda>h c. h[c := replaceTrack (tracks s) k t (h ! c)]) h
               (map (\<lambda>(uid, peer). connection (peerObjs s ! peer)) ps)\<rparr>"
  by (induction ps arbitrary: h) (auto simp: upd_pc_def)

text \<open>The loop over the map touches the connections only.\<close>

lemma replace_in_peers_eq:
  "replace_in_peers k t s =
   s\<lparr>pcs := foldl (\<lambda>h c. h[c := replaceTrack (tracks s) k t (h ! c)]) (pcs s)
               (map (\<lambda>(uid, peer). connection (peerObjs s ! peer)) (peersRef s))\<rparr>"
  using replace_in_peers_fold[where s = s and h = "pcs s" and ps = "peersRef s" and k = k and t = t]
  by (simp add: replace_in_peers_def)

lemma replaceTrack_idem:
  "kind (h ! t) = k \<Longrightarrow> replaceTrack h k t (replaceTrack h k t p) = replaceTrack h k t p"
  by (simp add: replaceTrack_def replace_first_idem carries_def)

lemma replaceTrack_rest: "(replaceTrack h k t p)\<lparr>senders := []\<rparr> = p\<lparr>senders := []\<rparr>"
  by (simp add: replaceTrack_def)

lemma kind_toggled: "kind (h[t := (h ! t)\<lparr>enabled := b\<rparr>] ! a) = kind (h ! a)"
proof (cases "t < length h")
  case True
  then show ?thesis by (cases "a = t") simp_all
next
  case False
  then show ?thesis by (simp add: list_update_beyond)
qed

lemma carries_toggled: "carries (h[t := (h ! t)\<lparr>enabled := b\<rparr>]) k = carries h k"
proof
  fix sd show "carries (h[t := (h ! t)\<lparr>enabled := b\<rparr>]) k sd = carries h k sd"
    by (cases sd) (simp_all add: carries_def kind_toggled)
qed

lemma replace_in_peers_frame: "toggle_frame s (replace_in_peers k t s)"
  by (simp add: toggle_frame_def replace_in_peers_eq fold_update_map replaceTrack_rest)

lemma replace_first_at:
  "i < length xs \<Longrightarrow> P (xs ! i) \<Longrightarrow> \<forall>j<i. \<not> P (xs ! j) \<Longrightarrow> replace_first P y xs = xs[i := y]"
proof (induction xs arbitrary: i)
  case Nil
  then show ?case by simp
next
  case (Cons x xs)
  show ?case
  proof (cases i)
    case 0
    with Cons.prems show ?thesis by simp
  next
    case (Suc n)
    with Cons.prems have "\<not> P x" by auto
    moreover from Suc Cons.prems have "n < length xs" "P (xs ! n)" "\<forall>j<n. \<not> P (xs ! j)"
      by auto
    ultimately show ?thesis using Suc Cons.IH[of n] by simp
  qed
qed

lemma replace_first_none: "\<forall>i<length xs. \<not> P (xs ! i) \<Longrightarrow> replace_first P y xs = xs"
proof (induction xs)
  case Nil
  then show ?case by simp
next
  case (Cons x xs)
  from Cons.prems have "\<not> P x" by auto
  moreover from Cons.prems have "\<forall>i<length xs. \<not> P (xs ! i)" by auto
  ultimately show ?case using Cons.IH by simp
qed

lemma first_of_kind_carries:
  "first_of_kind h k sds i \<longleftrightarrow>
     (i < length sds \<and> carries h k (sds ! i) \<and> (\<forall>j<i. \<not> carries h k (sds ! j)))"
  by (auto simp: first_of_kind_def carries_def split: option.splits)

lemma first_exists:
  "\<exists>i<length xs. P (xs ! i) \<Longrightarrow> \<exists>i. i < length xs \<and> P (xs ! i) \<and> (\<forall>j<i. \<not> P (xs ! j))"
proof -
  assume "\<exists>i<length xs. P (xs ! i)"
  then have ex: "\<exists>i. i < length xs \<and> P (xs ! i)" by blast
  define m where "m = (LEAST i. i < length xs \<and> P (xs ! i))"
  from ex have "m < length xs \<and> P (xs ! m)" unfolding m_def by (rule LeastI_ex)
  moreover have "\<forall>j<m. \<not> P (xs ! j)"
  proof (intro allI impI notI)
    fix j assume "j < m" "P (xs ! j)"
    with \<open>m < length xs \<and> P (xs ! m)\<close> have "j < length xs \<and> P (xs ! j)" by simp
    then have "m \<le> j" unfolding m_def by (rule Least_le)
    with \<open>j < m\<close> show False by simp
  qed
  ultimately show ?thesis by blast
qed

text \<open>What \<^const>\<open>replaceTrack\<close> does to the senders, said without it.\<close>

lemma replaceTrack_senders:
  "(\<forall>i. first_of_kind h k (senders p) i \<longrightarrow>
        senders (replaceTrack h k t p) = (senders p)[i := Some t]) \<and>
   ((\<forall>i. \<not> first_of_kind h k (senders p) i) \<longrightarrow> senders (replaceTrack h k t p) = senders p)"
proof (intro conjI allI impI)
  fix i assume "first_of_kind h k (senders p) i"
  then show "senders (replaceTrack h k t p) = (senders p)[i := Some t]"
    by (simp add: first_of_kind_carries replaceTrack_def replace_first_at)
next
  assume none: "\<forall>i. \<not> first_of_kind h k (senders p) i"
  have "\<forall>i<length (senders p). \<not> carries h k (senders p ! i)"
  proof (rule ccontr)
    assume "\<not> (\<forall>i<length (senders p). \<not> carries h k (senders p ! i))"
    then have "\<exists>i<length (senders p). carries h k (senders p ! i)" by blast
    from first_exists[OF this] none show False by (auto simp: first_of_kind_carries)
  qed
  then show "senders (replaceTrack h k t p) = senders p"
    by (simp add: replaceTrack_def replace_first_none)
qed

lemma first_of_kind_toggled:
  "first_of_kind (h[t := (h ! t)\<lparr>enabled := b\<rparr>]) k = first_of_kind h k"
  by (intro ext) (simp add: first_of_kind_carries carries_toggled)

lemma replace_in_peers_nth:
  assumes "kind (tracks s ! t) = k"
    and "(uid, peer) \<in> set (peersRef s)"
    and "connection (peerObjs s ! peer) < length (pcs s)"
  shows "pcs (replace_in_peers k t s) ! connection (peerObjs s ! peer) =
           replaceTrack (tracks s) k t (pcs s ! connection (peerObjs s ! peer))"
proof -
  have idem: "\<And>x. replaceTrack (tracks s) k t (replaceTrack (tracks s) k t x) =
                   replaceTrack (tracks s) k t x"
    using assms(1) by (simp add: replaceTrack_idem)
  from assms(2) have "connection (peerObjs s ! peer) \<in>
      set (map (\<lambda>(uid, peer). connection (peerObjs s ! peer)) (peersRef s))"
    by force
  with assms(3) show ?thesis
    unfolding replace_in_peers_eq
    by (simp add: fold_update_nth[of "replaceTrack (tracks s) k t", OF idem])
qed

lemma replace_in_peers_substituted:
  assumes "kind (tracks s ! t) = k"
  shows "substituted k t s (replace_in_peers k t s)"
  unfolding substituted_def
proof (intro ballI, clarify)
  fix uid peer
  assume "(uid, peer) \<in> set (peersRef s)" "connection (peerObjs s ! peer) < length (pcs s)"
  then have "pcs (replace_in_peers k t s) ! connection (peerObjs s ! peer) =
           replaceTrack (tracks s) k t (pcs s ! connection (peerObjs s ! peer))"
    by (rule replace_in_peers_nth[OF assms])
  then show "(\<forall>i. first_of_kind (tracks s) k (senders (pcs s ! connection (peerObjs s ! peer))) i \<longrightarrow>
             senders (pcs (replace_in_peers k t s) ! connection (peerObjs s ! peer)) =
               (senders (pcs s ! connection (peerObjs s ! peer)))[i := Some t]) \<and>
        ((\<forall>i. \<not> first_of_kind (tracks s) k (senders (pcs s ! connection (peerObjs s ! peer))) i) \<longrightarrow>
             senders (pcs (replace_in_peers k t s) ! connection (peerObjs s ! peer)) =
               senders (pcs s ! connection (peerObjs s ! peer)))"
    using replaceTrack_senders[of "tracks s" k "pcs s ! connection (peerObjs s ! peer)" t]
    by simp
qed

lemma replace_in_peers_others:
  assumes "kind (tracks s ! t) = k"
  shows "others_kept s (replace_in_peers k t s)"
proof -
  have idem: "\<And>x. replaceTrack (tracks s) k t (replaceTrack (tracks s) k t x) =
                   replaceTrack (tracks s) k t x"
    using assms by (simp add: replaceTrack_idem)
  show ?thesis
    unfolding others_kept_def replace_in_peers_eq
    by (simp add: fold_update_nth[of "replaceTrack (tracks s) k t", OF idem])
qed

lemma others_kept_refl: "others_kept s s"
  by (simp add: others_kept_def)

lemma find_kind: "find (\<lambda>t. kind (h ! t) = k) ts = Some t \<Longrightarrow> kind (h ! t) = k"
  by (auto simp: find_Some_iff)

lemma toggle_core:
  assumes k: "kind (tracks s ! t) = k"
  shows "toggle_frame s (replace_in_peers k t
           (s\<lparr>tracks := (tracks s)[t := (tracks s ! t)\<lparr>enabled := b\<rparr>],
              isAudioEnabled := a, isVideoEnabled := v\<rparr>))"
          (is "toggle_frame s (replace_in_peers k t ?s2)")
    and "substituted k t s (replace_in_peers k t
           (s\<lparr>tracks := (tracks s)[t := (tracks s ! t)\<lparr>enabled := b\<rparr>],
              isAudioEnabled := a, isVideoEnabled := v\<rparr>))"
    and "tracks (replace_in_peers k t
           (s\<lparr>tracks := (tracks s)[t := (tracks s ! t)\<lparr>enabled := b\<rparr>],
              isAudioEnabled := a, isVideoEnabled := v\<rparr>)) =
         (tracks s)[t := (tracks s ! t)\<lparr>enabled := b\<rparr>]"
    and "others_kept s (replace_in_peers k t
           (s\<lparr>tracks := (tracks s)[t := (tracks s ! t)\<lparr>enabled := b\<rparr>],
              isAudioEnabled := a, isVideoEnabled := v\<rparr>))"
proof -
  show "toggle_frame s (replace_in_peers k t ?s2)"
    using replace_in_peers_frame[of ?s2 k t] by (simp add: toggle_frame_def)
  have "kind (tracks ?s2 ! t) = k" using k by (simp add: kind_toggled)
  then have "substituted k t ?s2 (replace_in_peers k t ?s2)"
    by (rule replace_in_peers_substituted)
  then show "substituted k t s (replace_in_peers k t ?s2)"
    by (simp add: substituted_def first_of_kind_toggled)
  show "tracks (replace_in_peers k t ?s2) = (tracks s)[t := (tracks s ! t)\<lparr>enabled := b\<rparr>]"
    by (simp add: replace_in_peers_eq)
  have "kind (tracks ?s2 ! t) = k" using k by (simp add: kind_toggled)
  then have "others_kept ?s2 (replace_in_peers k t ?s2)"
    by (rule replace_in_peers_others)
  then show "others_kept s (replace_in_peers k t ?s2)"
    by (simp add: others_kept_def)
qed

lemma toggle_frame_refl: "toggle_frame s s"
  by (simp add: toggle_frame_def)

lemma toggleAudio_Some:
  "first_track AudioKind s = Some t \<Longrightarrow>
   toggleAudio s = replace_in_peers AudioKind t
     (s\<lparr>tracks := (tracks s)[t := (tracks s ! t)\<lparr>enabled := \<not> enabled (tracks s ! t)\<rparr>],
        isAudioEnabled :=
          enabled ((tracks s)[t := (tracks s ! t)\<lparr>enabled := \<not> enabled (tracks s ! t)\<rparr>] ! t),
        isVideoEnabled := isVideoEnabled s\<rparr>)"
  by (auto simp: first_track_def toggleAudio_def Let_def split: option.splits)

lemma toggleVideo_Some:
  "first_track VideoKind s = Some t \<Longrightarrow>
   toggleVideo s = replace_in_peers VideoKind t
     (s\<lparr>tracks := (tracks s)[t := (tracks s ! t)\<lparr>enabled := \<not> enabled (tracks s ! t)\<rparr>],
        isAudioEnabled := isAudioEnabled s,
        isVideoEnabled :=
          enabled ((tracks s)[t := (tracks s ! t)\<lparr>enabled := \<not> enabled (tracks s ! t)\<rparr>] ! t)\<rparr>)"
  by (auto simp: first_track_def toggleVideo_def Let_def split: option.splits)

lemma toggleAudio_None: "first_track AudioKind s = None \<Longrightarrow> toggleAudio s = s"
  by (auto simp: first_track_def toggleAudio_def split: option.splits)

lemma toggleVideo_None: "first_track VideoKind s = None \<Longrightarrow> toggleVideo s = s"
  by (auto simp: first_track_def toggleVideo_def split: option.splits)

lemma first_track_kind: "first_track k s = Some t \<Longrightarrow> kind (tracks s ! t) = k"
  by (auto simp: first_track_def split: option.splits dest: find_kind)

lemma isVideo_replace: "isVideoEnabled (replace_in_peers k t s) = isVideoEnabled s"
  by (simp add: replace_in_peers_eq)

lemma isAudio_replace: "isAudioEnabled (replace_in_peers k t s) = isAudioEnabled s"
  by (simp add: replace_in_peers_eq)

section \<open>The concrete states, evaluated\<close>

lemma two_in_room_val:
  "two_in_room =
     \<lparr>rooms = [(''r1'', \<lparr>users = [''X'', ''Y'']\<rparr>)], sockets = [''X'', ''Y'', ''Z''],
      joined = [(''r1'', ''X''), (''r1'', ''Y'')]\<rparr>"
  by (simp add: two_in_room_def handleJoinRoom_def sio_connect_def sio_join_def init_gateway_def
      js_map_has_def js_map_set_def js_set_add_def Let_def)

lemma run_three_joins:
  "run_events init_gateway three_joins =
     \<lparr>rooms = [(''r1'', \<lparr>users = [''A'', ''B'', ''J'']\<rparr>)], sockets = [],
      joined = [(''r1'', ''A''), (''r1'', ''B''), (''r1'', ''J'')]\<rparr>"
  by (simp add: three_joins_def run_events_def init_gateway_def handleJoinRoom_def sio_join_def
      js_map_has_def js_map_set_def js_set_add_def Let_def)

lemmas gateway_eval =
  live_run_def init_gateway_def handleConnection_def handleJoinRoom_def sio_connect_def
  sio_join_def js_map_has_def js_map_set_def js_set_add_def Let_def

lemma live_three:
  "live_run three_live =
     \<lparr>rooms = [(''r1'', \<lparr>users = [''A'', ''B'', ''J'']\<rparr>)], sockets = [''A'', ''B'', ''J''],
      joined = [(''r1'', ''A''), (''r1'', ''B''), (''r1'', ''J'')]\<rparr>"
  by (simp add: three_live_def gateway_eval)

lemma live_aliased:
  "live_run aliased_live =
     \<lparr>rooms = [(''r1'', \<lparr>users = [''A'', ''B'', ''J'']\<rparr>), (''J'', \<lparr>users = [''B'']\<rparr>)],
      sockets = [''A'', ''B'', ''J''],
      joined = [(''r1'', ''A''), (''r1'', ''B''), (''r1'', ''J''), (''J'', ''B'')]\<rparr>"
  by (simp add: aliased_live_def three_live_def gateway_eval)

lemma live_overheard:
  "live_run overheard_live =
     \<lparr>rooms = [(''r1'', \<lparr>users = [''A'', ''B'']\<rparr>), (''B'', \<lparr>users = [''X'']\<rparr>)],
      sockets = [''A'', ''B'', ''X''],
      joined = [(''r1'', ''A''), (''r1'', ''B''), (''B'', ''X'')]\<rparr>"
  by (simp add: overheard_live_def gateway_eval)

lemma run_two_joins:
  "run_events init_gateway two_joins =
     \<lparr>rooms = [(''r1'', \<lparr>users = [''X'', ''Y'']\<rparr>)], sockets = [],
      joined = [(''r1'', ''X''), (''r1'', ''Y'')]\<rparr>"
  by (simp add: two_joins_def run_events_def init_gateway_def handleJoinRoom_def sio_join_def
      js_map_has_def js_map_set_def js_set_add_def Let_def)

lemmas client_eval =
  init_client_def willing_browser_def createPeerConnection_def alloc_def Let_def pc_addTrack_def
  upd_pc_def upd_peer_def js_map_set_def js_map_has_def pc_setRemoteDescription_def
  pc_setLocalDescription_def addBufferedIceCandidates_def emit_def new_RTCPeerConnection_def
  pc_addIceCandidate_def tracked_pc_def peer_of_def

lemma one_peer_val:
  "one_peer = init_client\<lparr>peersRef := [(''Y'', 0)], peers := [(''Y'', 0)],
      peerObjs := [peer_of ''Y'' 0], pcs := [tracked_pc]\<rparr>"
  by (simp add: one_peer_def handleUserJoined_def client_eval)

lemma failed_peer_val:
  "failed_peer = init_client\<lparr>peersRef := [(''Y'', 0)], peers := [(''Y'', 0)],
      peerObjs := [(peer_of ''Y'' 0)\<lparr>stream := Some ''stream-Y''\<rparr>],
      pcs := [tracked_pc\<lparr>connectionState := Failed\<rparr>]\<rparr>"
  by (simp add: failed_peer_def one_peer_val ontrack_def client_eval)

lemma muted_then_joined_val:
  "muted_then_joined =
     two_mics\<lparr>peersRef := [(''Y'', 0)], peers := [(''Y'', 0)], peerObjs := [peer_of ''Y'' 0],
       pcs := [new_RTCPeerConnection\<lparr>senders := [Some 1, Some 2]\<rparr>],
       tracks := [\<lparr>kind = AudioKind, enabled = False, stopCalled = False\<rparr>,
                  \<lparr>kind = AudioKind, enabled = True, stopCalled = False\<rparr>,
                  \<lparr>kind = VideoKind, enabled = True, stopCalled = False\<rparr>],
       isAudioEnabled := False\<rparr>"
  by (simp add: muted_then_joined_def two_mics_def handleUserJoined_def toggleAudio_def
      replace_in_peers_def createPeerConnection_def alloc_def Let_def pc_addTrack_def upd_pc_def
      js_map_set_def js_map_has_def new_RTCPeerConnection_def peer_of_def)

lemma cleanup_fold_frame:
  "socketOut (foldl (\<lambda>a (uid, peer). pc_close a (connection (peerObjs a ! peer))) s ps) = socketOut s \<and>
   localStreamRef (foldl (\<lambda>a (uid, peer). pc_close a (connection (peerObjs a ! peer))) s ps) =
     localStreamRef s"
  by (induction ps arbitrary: s) (auto simp: pc_close_def upd_pc_def)

text \<open>
  After \<^const>\<open>cleanup\<close> no local stream is held, and a connect or reconnect event sends
  nothing, whatever its handler has closed over.
\<close>

lemma no_join_after_cleanup:
  "localStreamRef (cleanup s) = None \<and>
   socketOut (on_connect roomId joinedBefore (cleanup s)) = socketOut s \<and>
   socketOut (on_reconnect roomId joinedBefore (cleanup s)) = socketOut s"
proof -
  have l: "localStreamRef (cleanup s) = None"
    by (simp add: cleanup_def Let_def split: option.splits)
  have o: "socketOut (cleanup s) = socketOut s"
    by (simp add: cleanup_def Let_def cleanup_fold_frame split: option.splits)
  from l o show ?thesis
    by (simp add: on_connect_def on_reconnect_def Let_def)
qed

text \<open>
  The bootstrap handlers and a user that the map holds already: \<^const>\<open>handleUserJoined\<close>
  changes nothing, and \<^const>\<open>handleRoomUsers\<close> leaves the user's entry, record and
  connection as they were and sends the user no offer.
\<close>

lemma bootstrap_keeps_known_peer:
  assumes "map_of (peersRef s) u = Some peer" "peer < length (peerObjs s)"
    and "connection (peerObjs s ! peer) < length (pcs s)"
  shows "handleUserJoined s u = s" and "keeps_peer u peer s (handleRoomUsers B s us)"
proof -
  from assms(1) show "handleUserJoined s u = s"
    by (simp add: handleUserJoined_def js_map_has_def)
  from assms have "keeps_peer u peer s s" by (simp add: keeps_peer_def)
  then show "keeps_peer u peer s (handleRoomUsers B s us)" by (rule handleRoomUsers_keeps)
qed

lemma after_unsolicited_offer_val:
  "after_unsolicited_offer = init_client\<lparr>peersRef := [(''Y'', 0)], peers := [(''Y'', 0)],
      peerObjs := [peer_of ''Y'' 0, (peer_of ''Y'' 0)\<lparr>remoteDescriptionSet := True\<rparr>],
      pcs := [tracked_pc\<lparr>remoteDescription := Some ''offer-Y'',
                         localDescription := Some ''answer-sdp''\<rparr>],
      socketOut := [Answer ''answer-sdp'' ''Y'']\<rparr>"
  by (simp add: after_unsolicited_offer_def client_handleOffer_def client_eval)

text \<open>
  For comparison with claim C1: where the map does hold the sender, an accepted answer
  sets the flag of the stored record, applies the queued candidates in arrival order and
  empties the queue.
\<close>

lemma flush_candidates:
  "r < length (pcs s) \<Longrightarrow>
   foldl (\<lambda>a c. pc_addIceCandidate a r c) s cs =
     upd_pc s r (\<lambda>p. p\<lparr>addedIceCandidates := addedIceCandidates p @ cs\<rparr>)"
proof (induction cs arbitrary: s)
  case Nil
  then show ?case by (simp add: upd_pc_def)
next
  case (Cons c cs)
  from Cons.prems have "r < length (pcs (pc_addIceCandidate s r c))"
    by (simp add: pc_addIceCandidate_def upd_pc_def)
  from Cons.IH[OF this] Cons.prems show ?case
    by (simp add: pc_addIceCandidate_def upd_pc_def)
qed

lemma answer_known_peer:
  assumes "map_of (peersRef s) from = Some peer"
    and "peer < length (peerObjs s)"
    and "connection (peerObjs s ! peer) < length (pcs s)"
    and "acceptsRemote B (pcs s ! connection (peerObjs s ! peer)) sdp"
  shows "peerObjs (client_handleAnswer B s sdp from) ! peer =
           (peerObjs s ! peer)\<lparr>remoteDescriptionSet := True, iceCandidates := []\<rparr>"
    and "pcs (client_handleAnswer B s sdp from) ! connection (peerObjs s ! peer) =
           (pcs s ! connection (peerObjs s ! peer))
             \<lparr>remoteDescription := Some sdp,
              addedIceCandidates := addedIceCandidates (pcs s ! connection (peerObjs s ! peer)) @
                                    iceCandidates (peerObjs s ! peer)\<rparr>"
  using assms
  by (auto simp: client_handleAnswer_def pc_setRemoteDescription_def addBufferedIceCandidates_def
        upd_peer_def upd_pc_def Let_def flush_candidates)

section \<open>The claims\<close>

subsection \<open>C1: buffering of ICE candidates\<close>

text \<open>
  Claim C1 says that for every PeerLink a candidate that arrives before the remote
  description is applied is queued, that the queue is flushed once, in arrival order,
  right after the remote description is first applied, and that every later candidate is
  applied at once and never queued. The code does not do this for a PeerLink that an
  unsolicited offer creates. \<^verbatim>\<open>handleOffer\<close> sets \<^verbatim>\<open>remoteDescriptionSet\<close> on an
  object literal of its own, while the map holds the record that
  \<^verbatim>\<open>createPeerConnection\<close> stored: after the offer of \<open>Y\<close> is applied to the connection,
  the record in the map still has the flag unset, and the candidate that arrives next is
  queued and not applied.
\<close>

theorem unsolicited_offer_then_candidate:
  "map_of (peersRef after_unsolicited_offer) ''Y'' = Some 0 \<and>
   remoteDescription (pcs after_unsolicited_offer ! connection (peerObjs after_unsolicited_offer ! 0))
     = Some ''offer-Y'' \<and>
   remoteDescriptionSet (peerObjs after_unsolicited_offer ! 0) = False \<and>
   iceCandidates (peerObjs (client_handleIceCandidate after_unsolicited_offer ''cand1'' ''Y'') ! 0)
     = [''cand1''] \<and>
   addedIceCandidates (pcs (client_handleIceCandidate after_unsolicited_offer ''cand1'' ''Y'') ! 0)
     = []"
  by (simp add: after_unsolicited_offer_val client_handleIceCandidate_def client_eval)

subsection \<open>C2: the member set of a room\<close>

text \<open>
  Claim C2: after any sequence of join and disconnect events, applied to the empty room
  map, a connection is a member of a room exactly when it issued a join for that room and
  has not disconnected since; and a join by a connection that is a member already leaves
  the room's members as they were.
\<close>

theorem room_membership:
  "(c \<in> set (members (run_events init_gateway es) r) \<longleftrightarrow> joined_not_left c r (rev es)) \<and>
   (c \<in> set (members g r) \<longrightarrow> members (fst (handleJoinRoom g c r)) r = members g r)"
proof
  show "c \<in> set (members (run_events init_gateway es) r) \<longleftrightarrow> joined_not_left c r (rev es)"
  proof (induction es rule: rev_induct)
    case Nil
    then show ?case by (simp add: run_events_def init_gateway_def members_def)
  next
    case (snoc e es)
    have ok: "rooms_ok (rooms (run_events init_gateway es))" by (rule run_ok)
    have "set (members (run_events init_gateway (es @ [e])) r) =
       (case e of
          Join c' r' \<Rightarrow> if r' = r then insert c' (set (members (run_events init_gateway es) r))
                        else set (members (run_events init_gateway es) r)
        | Disconnect c' \<Rightarrow> set (members (run_events init_gateway es) r) - {c'})"
      unfolding run_snoc by (rule members_step[OF ok])
    with snoc.IH show ?case
      by (cases e) auto
  qed
next
  show "c \<in> set (members g r) \<longrightarrow> members (fst (handleJoinRoom g c r)) r = members g r"
    by (simp add: members_join js_set_add_def)
qed

text \<open>
  Claim C2 at a concrete input: \<open>A\<close> and \<open>B\<close> join \<open>r1\<close> and \<open>A\<close> disconnects; and \<open>A\<close> joins
  again a room it is in.
\<close>

theorem room_membership_witness:
  "''B'' \<in> set (members (run_events init_gateway
              [Join ''A'' ''r1'', Join ''B'' ''r1'', Disconnect ''A'']) ''r1'') \<and>
   ''A'' \<notin> set (members (run_events init_gateway
              [Join ''A'' ''r1'', Join ''B'' ''r1'', Disconnect ''A'']) ''r1'') \<and>
   ''A'' \<in> set (members (run_events init_gateway three_joins) ''r1'') \<and>
   members (fst (handleJoinRoom (run_events init_gateway three_joins) ''A'' ''r1'')) ''r1''
     = [''A'', ''B'', ''J'']"
  using room_membership[of "''B''" "[Join ''A'' ''r1'', Join ''B'' ''r1'', Disconnect ''A'']" "''r1''"]
    room_membership[of "''A''" "[Join ''A'' ''r1'', Join ''B'' ''r1'', Disconnect ''A'']" "''r1''"
       "run_events init_gateway three_joins"]
  by (simp add: run_three_joins members_def)

subsection \<open>C3: what a join sends\<close>

text \<open>
  Claim C3 says that a join is idempotent for a member, and that each member present before
  the join, and never the joiner, receives one \<^verbatim>\<open>user-joined\<close>. A first join does that
  (lemma \<open>join_first_time\<close>). A join by a connection that is a member already does not:
  \<^verbatim>\<open>room.users.forEach\<close> runs over a set that holds the joiner, so with \<open>X\<close> and \<open>Y\<close> in
  \<open>r1\<close> a second join of \<open>X\<close> sends \<^verbatim>\<open>user-joined\<close> about \<open>X\<close> to \<open>X\<close> itself and once more
  to \<open>Y\<close>.
\<close>

theorem rejoin_notifies_joiner:
  "members (run_events init_gateway two_joins) ''r1'' = [''X'', ''Y''] \<and>
   snd (handleJoinRoom (run_events init_gateway two_joins) ''X'' ''r1'') =
     [ToChannel ''X'' (UserJoined ''X''), ToChannel ''Y'' (UserJoined ''X''),
      ToSocket ''X'' (RoomUsers [''Y''])]"
  by (simp add: run_two_joins members_def handleJoinRoom_def js_map_has_def js_map_set_def
      js_set_add_def sio_join_def Let_def)

subsection \<open>C4: what a disconnect delivers\<close>

text \<open>
  Claim C4, amended. In every state that connections, joins and disconnects reach, the
  disconnect of \<open>c\<close> removes \<open>c\<close> from every room and keeps every other member, and
  nothing but \<^verbatim>\<open>user-left\<close> carrying \<open>c\<close> is delivered. If moreover no socket is in a
  channel that bears the identifier of a connected socket, then every connection \<open>v\<close>
  receives that message once for each room that held both \<open>c\<close> and \<open>v\<close>: once per such
  room for a member that is still present, and never for a connection that shared no room
  with \<open>c\<close>, nor for \<open>c\<close> itself.
\<close>

theorem disconnect_notifies:
  "(\<forall>r. members (fst (handleDisconnect (sio_close (live_run es) c) c)) r =
          removeAll c (members (live_run es) r)) \<and>
   (\<forall>(v, m) \<in> set (deliver (sio_close (live_run es) c)
                        (snd (handleDisconnect (sio_close (live_run es) c) c))).
      m = UserLeft c) \<and>
   (no_alias (live_run es) \<longrightarrow>
      (\<forall>v. received (sio_close (live_run es) c)
             (snd (handleDisconnect (sio_close (live_run es) c) c)) v (UserLeft c) =
           length (filter (\<lambda>(r, rm). c \<in> set (users rm) \<and> v \<in> set (users rm) \<and> v \<noteq> c)
                    (rooms (live_run es)))))"
proof -
  let ?g = "live_run es"
  let ?g1 = "sio_close ?g c"
  let ?out = "snd (handleDisconnect ?g1 c)"
  have ok: "live_ok ?g" by (rule live_run_ok)
  then have rok: "rooms_ok (rooms ?g)" and ds: "distinct (sockets ?g)"
    and sub: "list_all (\<lambda>(r, rm). set (users rm) \<subseteq> set (sockets ?g)) (rooms ?g)"
    by (simp_all add: live_ok_def)
  from rok have dk: "distinct (map fst (rooms ?g1))" by (simp add: rooms_ok_def rooms_sio_close)
  have a: "\<forall>r. members (fst (handleDisconnect ?g1 c)) r = removeAll c (members ?g r)"
    using members_disconnect[OF dk] by (simp add: members_sio_close)
  have out: "?out = snd (leave_rooms c (rooms ?g))"
    by (simp add: handleDisconnect_def split_beta rooms_sio_close)
  have targets: "\<forall>e \<in> set ?out. \<exists>u. e = ToChannel u (UserLeft c) \<and> u \<in> set (sockets ?g1)"
    unfolding out using leave_out_targets[OF sub, of c]
    by (simp add: sio_close_def js_set_delete_def)
  have b: "\<forall>(v, m) \<in> set (deliver ?g1 ?out). m = UserLeft c"
    using targets by (fastforce simp: deliver_def)
  have c: "\<forall>v. received ?g1 ?out v (UserLeft c) =
           length (filter (\<lambda>(r, rm). c \<in> set (users rm) \<and> v \<in> set (users rm) \<and> v \<noteq> c)
                    (rooms ?g))" if na: "no_alias ?g"
  proof
    fix v
    have ds1: "distinct (sockets ?g1)"
      using ds by (simp add: sio_close_def js_set_delete_def distinct_removeAll)
    have "received ?g1 ?out v (UserLeft c) =
            length (filter (\<lambda>e. e = ToChannel v (UserLeft c)) ?out)"
      by (rule received_plain[OF ds1 sio_close_no_alias[OF na] targets])
    also have "\<dots> =
        length (filter (\<lambda>(r, rm). c \<in> set (users rm) \<and> v \<in> set (users rm) \<and> v \<noteq> c)
                  (rooms ?g))"
      unfolding out by (rule count_leave[OF rooms_ok_distinct[OF rok]])
    finally show "received ?g1 ?out v (UserLeft c) =
           length (filter (\<lambda>(r, rm). c \<in> set (users rm) \<and> v \<in> set (users rm) \<and> v \<noteq> c)
                    (rooms ?g))" .
  qed
  from a b c show ?thesis by blast
qed

text \<open>
  Claim C4 as stated fails in three ways. At its own example, with \<open>A\<close>, \<open>B\<close> and a third
  joiner \<open>J\<close> in the room, the disconnect of \<open>A\<close> leaves \<open>B\<close> and \<open>J\<close>, not \<open>B\<close> alone.
  When \<open>B\<close> has also joined a room named \<open>J\<close>, the notification addressed to \<open>J\<close> reaches
  \<open>B\<close> too, so \<open>B\<close> receives two. And \<open>X\<close>, in a room named \<open>B\<close> and in no room with
  \<open>A\<close>, receives the notification addressed to \<open>B\<close>.
\<close>

theorem disconnect_notifies_counterexample:
  "members (live_run three_live) ''r1'' = [''A'', ''B'', ''J''] \<and>
   members (fst (handleDisconnect (sio_close (live_run three_live) ''A'') ''A'')) ''r1''
     = [''B'', ''J''] \<and>
   set (members (fst (handleDisconnect (sio_close (live_run three_live) ''A'') ''A'')) ''r1'')
     \<noteq> {''B''} \<and>
   members (live_run aliased_live) ''r1'' = [''A'', ''B'', ''J''] \<and>
   received (sio_close (live_run aliased_live) ''A'')
     (snd (handleDisconnect (sio_close (live_run aliased_live) ''A'') ''A'')) ''B'' (UserLeft ''A'')
     = 2 \<and>
   members (live_run overheard_live) ''r1'' = [''A'', ''B''] \<and>
   members (live_run overheard_live) ''B'' = [''X''] \<and>
   received (sio_close (live_run overheard_live) ''A'')
     (snd (handleDisconnect (sio_close (live_run overheard_live) ''A'') ''A'')) ''X'' (UserLeft ''A'')
     = 1"
  by (simp add: live_three live_aliased live_overheard members_def handleDisconnect_def
      leave_rooms_Cons sio_close_def js_set_delete_def received_def deliver_def
      channel_members_def)

text \<open>
  The amended claim C4 at the example: with \<open>A\<close>, \<open>B\<close> and \<open>J\<close> connected and in \<open>r1\<close>, and
  no room named like a connection, the disconnect of \<open>A\<close> leaves \<open>B\<close> and \<open>J\<close>, each of
  which receives \<^verbatim>\<open>user-left\<close> for \<open>A\<close> once, and \<open>A\<close> receives none.
\<close>

theorem disconnect_notifies_witness:
  "no_alias (live_run three_live) \<and>
   members (fst (handleDisconnect (sio_close (live_run three_live) ''A'') ''A'')) ''r1''
     = [''B'', ''J''] \<and>
   deliver (sio_close (live_run three_live) ''A'')
     (snd (handleDisconnect (sio_close (live_run three_live) ''A'') ''A''))
     = [(''B'', UserLeft ''A''), (''J'', UserLeft ''A'')] \<and>
   received (sio_close (live_run three_live) ''A'')
     (snd (handleDisconnect (sio_close (live_run three_live) ''A'') ''A'')) ''B'' (UserLeft ''A'')
     = 1 \<and>
   received (sio_close (live_run three_live) ''A'')
     (snd (handleDisconnect (sio_close (live_run three_live) ''A'') ''A'')) ''J'' (UserLeft ''A'')
     = 1 \<and>
   received (sio_close (live_run three_live) ''A'')
     (snd (handleDisconnect (sio_close (live_run three_live) ''A'') ''A'')) ''A'' (UserLeft ''A'')
     = 0"
  using disconnect_notifies[of three_live "''A''"]
  by (simp add: live_three no_alias_def members_def handleDisconnect_def leave_rooms_Cons
      sio_close_def js_set_delete_def received_def deliver_def channel_members_def)

subsection \<open>C5: no room without members\<close>

text \<open>
  Claim C5: in every state that joins and disconnects reach, every room of the map has a
  member; the disconnect of the last member of a room deletes the room in the same step;
  and a step that creates a room is a join for that room that leaves the joiner as its only
  member.
\<close>

theorem rooms_never_empty:
  "(\<forall>(r, rm) \<in> set (rooms (run_events init_gateway es)). users rm \<noteq> []) \<and>
   (members (run_events init_gateway es) r = [c] \<longrightarrow>
      \<not> js_map_has (rooms (room_step (run_events init_gateway es) (Disconnect c))) r) \<and>
   (\<not> js_map_has (rooms g) r \<and> js_map_has (rooms (room_step g e)) r \<longrightarrow>
      (\<exists>c. e = Join c r \<and> members (room_step g e) r = [c]))"
proof (intro conjI)
  have ok: "rooms_ok (rooms (run_events init_gateway es))" by (rule run_ok)
  then show "\<forall>(r, rm) \<in> set (rooms (run_events init_gateway es)). users rm \<noteq> []"
    by (auto simp: rooms_ok_def list_all_iff)
  from ok have dk: "distinct (map fst (rooms (run_events init_gateway es)))"
    by (simp add: rooms_ok_def)
  show "members (run_events init_gateway es) r = [c] \<longrightarrow>
      \<not> js_map_has (rooms (room_step (run_events init_gateway es) (Disconnect c))) r"
    using dk
    by (auto simp: js_map_has_def members_def handleDisconnect_def split_beta rooms_sio_close
          leave_rooms_map_of split: option.splits)
  show "\<not> js_map_has (rooms g) r \<and> js_map_has (rooms (room_step g e)) r \<longrightarrow>
      (\<exists>c. e = Join c r \<and> members (room_step g e) r = [c])"
  proof (cases e)
    case (Join c' r')
    then show ?thesis
      by (auto simp: js_map_has_def rooms_join update_conv' members_join members_def
            js_set_add_def)
  next
    case (Disconnect c')
    have "set (map fst (rooms (room_step g e))) \<subseteq> set (map fst (rooms g))"
      using leave_rooms_keys[of c' "rooms g"]
      by (simp add: Disconnect handleDisconnect_def split_beta rooms_sio_close)
    then show ?thesis
      by (auto simp: js_map_has_def map_of_eq_None_iff)
  qed
qed

text \<open>
  Claim C5 at a concrete input: \<open>A\<close> joins \<open>r1\<close>, which creates the room with \<open>A\<close> in it,
  and the disconnect of \<open>A\<close> deletes it.
\<close>

theorem rooms_never_empty_witness:
  "\<not> js_map_has (rooms init_gateway) ''r1'' \<and>
   js_map_has (rooms (room_step init_gateway (Join ''A'' ''r1''))) ''r1'' \<and>
   members (room_step init_gateway (Join ''A'' ''r1'')) ''r1'' = [''A''] \<and>
   members (run_events init_gateway [Join ''A'' ''r1'']) ''r1'' = [''A''] \<and>
   \<not> js_map_has (rooms (room_step (run_events init_gateway [Join ''A'' ''r1''])
                          (Disconnect ''A''))) ''r1'' \<and>
   rooms (run_events init_gateway [Join ''A'' ''r1'', Disconnect ''A'']) = []"
  using rooms_never_empty[of "[Join ''A'' ''r1'']" "''r1''" "''A''" init_gateway "Join ''A'' ''r1''"]
  by (simp add: run_events_def init_gateway_def handleJoinRoom_def handleDisconnect_def
      sio_join_def sio_close_def js_map_has_def js_map_set_def js_set_add_def js_set_delete_def
      members_def leave_rooms_Cons Let_def)

subsection \<open>C6: restart after a failure\<close>

text \<open>
  Claim C6, amended. When the connection-state callback finds the state failed or
  disconnected, the map holds the user, and the signaling state of the user's connection is
  stable, the handler calls \<^verbatim>\<open>restartIce()\<close> on that connection once and does nothing
  else: it sends no message, so no offer, and both maps and every
  \<^verbatim>\<open>PeerConnection\<close> record (identity, queue, flag, remote stream) are what they were.
  The ICE-state callback changes neither the maps, nor the records, nor the outgoing
  messages either. No callback for \<^verbatim>\<open>negotiationneeded\<close> is installed by
  \<^verbatim>\<open>createPeerConnection\<close>, and \<^verbatim>\<open>handleRoomUsers\<close> is the only code that sends an
  offer.
\<close>

theorem restart_without_teardown:
  "(map_of (peersRef s) uid = Some peer \<and>
    (connectionState (pcs s ! pc) = Failed \<or> connectionState (pcs s ! pc) = Disconnected) \<and>
    signalingState (pcs s ! connection (peerObjs s ! peer)) = Stable \<longrightarrow>
      peersRef (onconnectionstatechange s uid pc) = peersRef s \<and>
      peers (onconnectionstatechange s uid pc) = peers s \<and>
      peerObjs (onconnectionstatechange s uid pc) = peerObjs s \<and>
      socketOut (onconnectionstatechange s uid pc) = socketOut s \<and>
      pcs (onconnectionstatechange s uid pc) =
        (pcs s)[connection (peerObjs s ! peer) :=
          (pcs s ! connection (peerObjs s ! peer))
            \<lparr>restartIceCalls :=
               Suc (restartIceCalls (pcs s ! connection (peerObjs s ! peer)))\<rparr>]) \<and>
   peersRef (oniceconnectionstatechange s uid pc) = peersRef s \<and>
   peers (oniceconnectionstatechange s uid pc) = peers s \<and>
   peerObjs (oniceconnectionstatechange s uid pc) = peerObjs s \<and>
   socketOut (oniceconnectionstatechange s uid pc) = socketOut s"
  by (auto simp: onconnectionstatechange_def oniceconnectionstatechange_def pc_restartIce_def
        upd_pc_def)

text \<open>
  Claim C6 as stated has the orchestrator regenerate and resend an offer. With the
  connection of \<open>Y\<close> failed and its signaling state stable, the handler sends nothing.
\<close>

theorem restart_without_teardown_counterexample:
  "map_of (peersRef failed_peer) ''Y'' = Some 0 \<and>
   connectionState (pcs failed_peer ! 0) = Failed \<and>
   signalingState (pcs failed_peer ! connection (peerObjs failed_peer ! 0)) = Stable \<and>
   socketOut (onconnectionstatechange failed_peer ''Y'' 0) = []"
  by (simp add: failed_peer_val onconnectionstatechange_def pc_restartIce_def client_eval)

text \<open>The amended claim C6 at the same state: one restart call, the entry and its stream kept.\<close>

theorem restart_without_teardown_witness:
  "map_of (peersRef failed_peer) ''Y'' = Some 0 \<and>
   connectionState (pcs failed_peer ! 0) = Failed \<and>
   signalingState (pcs failed_peer ! connection (peerObjs failed_peer ! 0)) = Stable \<and>
   peersRef (onconnectionstatechange failed_peer ''Y'' 0) = [(''Y'', 0)] \<and>
   stream (peerObjs (onconnectionstatechange failed_peer ''Y'' 0) ! 0) = Some ''stream-Y'' \<and>
   restartIceCalls (pcs (onconnectionstatechange failed_peer ''Y'' 0) ! 0) = 1"
  using restart_without_teardown[of failed_peer "''Y''" 0 0]
  by (simp add: failed_peer_val client_eval)

subsection \<open>C7: rejoining after a reconnection\<close>

text \<open>
  Claim C7 says that every connection of the relay client after a join reissues the join.
  The code does not. The first join sets \<open>hasJoinedRoom\<close>, which the socket effect lists
  among its dependencies, so the effect's cleanup runs \<^verbatim>\<open>cleanup()\<close>: it sets
  \<^verbatim>\<open>localStreamRef.current\<close> to null and resets \<open>hasJoinedRoom\<close>. The connect and
  reconnect handlers ask for both, so whichever value of \<open>hasJoinedRoom\<close> the handler of a
  socket made afterwards has closed over, a connection sends no join: the one join of the
  example is the first (lemma \<open>no_join_after_cleanup\<close> says it of every state). The
  other half of the claim holds: lemma \<open>bootstrap_keeps_known_peer\<close>.
\<close>

theorem connect_after_join_sends_no_join:
  "hasJoinedRoom (join_effect ''r1'' init_client) \<and>
   socketOut (join_effect ''r1'' init_client) = [JoinRoom ''r1''] \<and>
   localStreamRef (cleanup (join_effect ''r1'' init_client)) = None \<and>
   socketOut (on_connect ''r1'' True (cleanup (join_effect ''r1'' init_client))) = [JoinRoom ''r1''] \<and>
   socketOut (on_connect ''r1'' False (cleanup (join_effect ''r1'' init_client))) = [JoinRoom ''r1''] \<and>
   socketOut (on_reconnect ''r1'' True (cleanup (join_effect ''r1'' init_client)))
     = [JoinRoom ''r1''] \<and>
   socketOut (on_reconnect ''r1'' False (cleanup (join_effect ''r1'' init_client)))
     = [JoinRoom ''r1'']"
  by (simp add: join_effect_def on_connect_def on_reconnect_def cleanup_def client_eval)

subsection \<open>C8: the relay\<close>

text \<open>
  Claim C8, amended. Each of the three relay handlers returns the gateway unchanged and
  makes one emission, addressed to the channel named by the message's target and carrying
  the payload as it came with the sender's identifier as \<open>from\<close>; nothing else is
  delivered; a connected target receives the message; and when the target is neither a
  connected socket nor the name of a channel that a socket has joined, nothing is
  delivered to anyone.
\<close>

theorem relay_forwarding:
  "forwarded g (offer_to od) (OfferFrom (offer od) client) (handleOffer g client od) \<and>
   forwarded g (answer_to ad) (AnswerFrom (answer ad) client) (handleAnswer g client ad) \<and>
   forwarded g (candidate_to cd) (IceCandidateFrom (candidate cd) client)
     (handleIceCandidate g client cd)"
  by (simp add: handleOffer_def handleAnswer_def handleIceCandidate_def forwardedI)

text \<open>
  Claim C8 as stated has a message dropped whenever its target is not a registered
  connection. \<^verbatim>\<open>handleJoinRoom\<close> has put \<open>X\<close> and \<open>Y\<close> into the transport channel \<open>r1\<close>;
  an offer of \<open>Z\<close> with target \<open>r1\<close>, which is no connection, is delivered to both.
\<close>

theorem relay_forwarding_counterexample:
  "''r1'' \<notin> set (sockets two_in_room) \<and>
   deliver two_in_room
     (snd (handleOffer two_in_room ''Z'' \<lparr>offer = ''sdp'', offer_to = ''r1''\<rparr>)) =
     [(''X'', OfferFrom ''sdp'' ''Z''), (''Y'', OfferFrom ''sdp'' ''Z'')]"
  by (simp add: two_in_room_val handleOffer_def deliver_def channel_members_def)

text \<open>
  The amended claim C8 in the same state: an offer of \<open>X\<close> for \<open>Y\<close> reaches \<open>Y\<close> alone, and
  an answer for \<open>W\<close>, which is neither a socket nor a channel, reaches nobody.
\<close>

theorem relay_forwarding_witness:
  "forwarded two_in_room ''Y'' (OfferFrom ''sdp'' ''X'')
     (handleOffer two_in_room ''X'' \<lparr>offer = ''sdp'', offer_to = ''Y''\<rparr>) \<and>
   ''Y'' \<in> set (sockets two_in_room) \<and>
   deliver two_in_room
     (snd (handleOffer two_in_room ''X'' \<lparr>offer = ''sdp'', offer_to = ''Y''\<rparr>))
     = [(''Y'', OfferFrom ''sdp'' ''X'')] \<and>
   ''W'' \<notin> set (sockets two_in_room) \<and> ''W'' \<notin> fst ` set (joined two_in_room) \<and>
   deliver two_in_room
     (snd (handleAnswer two_in_room ''X'' \<lparr>answer = ''sdp'', answer_to = ''W''\<rparr>)) = []"
  using relay_forwarding[of two_in_room "\<lparr>offer = ''sdp'', offer_to = ''Y''\<rparr>" "''X''"
      "\<lparr>answer = ''sdp'', answer_to = ''W''\<rparr>" "\<lparr>candidate = ''c'', candidate_to = ''Y''\<rparr>"]
  by (simp add: forwarded_def two_in_room_val handleOffer_def handleAnswer_def deliver_def
      channel_members_def)

subsection \<open>C9: toggling a local track\<close>

text \<open>
  Claim C9: \<^verbatim>\<open>toggleAudio\<close> and \<^verbatim>\<open>toggleVideo\<close> send nothing, change neither map nor
  any \<^verbatim>\<open>PeerConnection\<close> record (queue, flag, remote stream), change of a connection
  nothing but its senders, and leave the relay client's state, the other kind's flag and
  every connection outside the map alone; without a track of the kind they change nothing
  at all; with one, they flip its \<open>enabled\<close>, and on the connection of every entry of the
  map the first sender that carries a track of the kind now carries the toggled track, the
  other senders being what they were.
\<close>

theorem toggle_is_local:
  "toggle_frame s (toggleAudio s) \<and> toggle_frame s (toggleVideo s) \<and>
   others_kept s (toggleAudio s) \<and> others_kept s (toggleVideo s) \<and>
   isVideoEnabled (toggleAudio s) = isVideoEnabled s \<and>
   isAudioEnabled (toggleVideo s) = isAudioEnabled s \<and>
   (first_track AudioKind s = None \<longrightarrow> toggleAudio s = s) \<and>
   (first_track VideoKind s = None \<longrightarrow> toggleVideo s = s) \<and>
   (first_track AudioKind s = Some t \<longrightarrow>
      substituted AudioKind t s (toggleAudio s) \<and>
      tracks (toggleAudio s) =
        (tracks s)[t := (tracks s ! t)\<lparr>enabled := \<not> enabled (tracks s ! t)\<rparr>]) \<and>
   (first_track VideoKind s = Some t \<longrightarrow>
      substituted VideoKind t s (toggleVideo s) \<and>
      tracks (toggleVideo s) =
        (tracks s)[t := (tracks s ! t)\<lparr>enabled := \<not> enabled (tracks s ! t)\<rparr>])"
proof -
  have a1: "toggle_frame s (toggleAudio s) \<and> others_kept s (toggleAudio s) \<and>
            isVideoEnabled (toggleAudio s) = isVideoEnabled s"
  proof (cases "first_track AudioKind s")
    case None
    then show ?thesis by (simp add: toggleAudio_None toggle_frame_refl others_kept_refl)
  next
    case (Some u)
    from toggle_core(1,4)[OF first_track_kind[OF Some], where v = "isVideoEnabled s"] Some
    show ?thesis
      by (simp add: toggleAudio_Some isVideo_replace)
  qed
  have v1: "toggle_frame s (toggleVideo s) \<and> others_kept s (toggleVideo s) \<and>
            isAudioEnabled (toggleVideo s) = isAudioEnabled s"
  proof (cases "first_track VideoKind s")
    case None
    then show ?thesis by (simp add: toggleVideo_None toggle_frame_refl others_kept_refl)
  next
    case (Some u)
    from toggle_core(1,4)[OF first_track_kind[OF Some], where a = "isAudioEnabled s"] Some
    show ?thesis
      by (simp add: toggleVideo_Some isAudio_replace)
  qed
  have a2: "first_track AudioKind s = Some t \<longrightarrow>
      substituted AudioKind t s (toggleAudio s) \<and>
      tracks (toggleAudio s) =
        (tracks s)[t := (tracks s ! t)\<lparr>enabled := \<not> enabled (tracks s ! t)\<rparr>]"
  proof
    assume f: "first_track AudioKind s = Some t"
    show "substituted AudioKind t s (toggleAudio s) \<and>
      tracks (toggleAudio s) =
        (tracks s)[t := (tracks s ! t)\<lparr>enabled := \<not> enabled (tracks s ! t)\<rparr>]"
      unfolding toggleAudio_Some[OF f]
      using toggle_core(2,3)[OF first_track_kind[OF f]] by blast
  qed
  have v2: "first_track VideoKind s = Some t \<longrightarrow>
      substituted VideoKind t s (toggleVideo s) \<and>
      tracks (toggleVideo s) =
        (tracks s)[t := (tracks s ! t)\<lparr>enabled := \<not> enabled (tracks s ! t)\<rparr>]"
  proof
    assume f: "first_track VideoKind s = Some t"
    show "substituted VideoKind t s (toggleVideo s) \<and>
      tracks (toggleVideo s) =
        (tracks s)[t := (tracks s ! t)\<lparr>enabled := \<not> enabled (tracks s ! t)\<rparr>]"
      unfolding toggleVideo_Some[OF f]
      using toggle_core(2,3)[OF first_track_kind[OF f]] by blast
  qed
  from a1 v1 a2 v2 show ?thesis
    by (simp add: toggleAudio_None toggleVideo_None)
qed

text \<open>
  Claim C9 where the substitution shows: the connection of \<open>Y\<close> was made while the first
  audio track was muted, so its first audio sender carries the second audio track;
  unmuting puts the first audio track on that sender and leaves the video sender alone,
  and sends nothing.
\<close>

theorem toggle_is_local_witness:
  "first_track AudioKind muted_then_joined = Some 0 \<and>
   senders (pcs muted_then_joined ! 0) = [Some 1, Some 2] \<and>
   first_of_kind (tracks muted_then_joined) AudioKind (senders (pcs muted_then_joined ! 0)) 0 \<and>
   senders (pcs (toggleAudio muted_then_joined) ! 0) = [Some 0, Some 2] \<and>
   enabled (tracks (toggleAudio muted_then_joined) ! 0) = True \<and>
   socketOut (toggleAudio muted_then_joined) = [] \<and>
   toggle_frame muted_then_joined (toggleAudio muted_then_joined) \<and>
   substituted AudioKind 0 muted_then_joined (toggleAudio muted_then_joined)"
  using toggle_is_local[of muted_then_joined 0]
  by (simp add: muted_then_joined_val two_mics_def first_track_def first_of_kind_def
      toggleAudio_def replace_in_peers_def replaceTrack_def carries_def upd_pc_def
      new_RTCPeerConnection_def peer_of_def Let_def)

subsection \<open>C10: messages from an unknown sender\<close>

text \<open>
  Claim C10: an answer or a candidate whose sender has no entry in the map leaves the whole
  state of the orchestrator as it was, so no PeerLink is created and nothing is queued; the
  candidate is lost for good, since an offer of the same sender that arrives afterwards
  finds the state that it would have found without the candidate.
\<close>

theorem unknown_sender_ignored:
  "map_of (peersRef s) from = None \<longrightarrow>
     client_handleAnswer B s sdp from = s \<and>
     client_handleIceCandidate s cand from = s \<and>
     client_handleOffer B (client_handleIceCandidate s cand from) sdp' from =
       client_handleOffer B s sdp' from"
  by (simp add: client_handleAnswer_def client_handleIceCandidate_def)

text \<open>Claim C10 with one peer \<open>Y\<close> in the map and messages from \<open>W\<close>.\<close>

theorem unknown_sender_ignored_witness:
  "map_of (peersRef one_peer) ''W'' = None \<and>
   client_handleAnswer willing_browser one_peer ''answer-W'' ''W'' = one_peer \<and>
   client_handleIceCandidate one_peer ''cand-W'' ''W'' = one_peer \<and>
   iceCandidates (peerObjs (client_handleIceCandidate one_peer ''cand-W'' ''W'') ! 0) = []"
  using unknown_sender_ignored[of one_peer "''W''" willing_browser "''answer-W''" "''cand-W''"]
  by (simp add: one_peer_val client_eval)

end
